theory Spec2Isabelle
  imports Complex_Main "HOL-Library.Char_ord" "HOL-Library.List_Lexorder"
    "HOL-Library.Product_Lexorder"
begin

section \<open>Paths\<close>

text \<open>
  A \<^verbatim>\<open>pathlib.Path\<close> is modelled by its \<^verbatim>\<open>parts\<close>: the anchor (\<^verbatim>\<open>/\<close> on POSIX, a drive such
  as \<^verbatim>\<open>C:\\<close> on Windows) followed by the components. Strings are byte strings (text in
  UTF-8); \<^verbatim>\<open>lower()\<close> is modelled on ASCII letters, and the operations that count characters
  (\<^verbatim>\<open>SequenceMatcher\<close>, the cut of a snippet or a preview) work on the bytes, which is exact
  for ASCII text. Equality of paths is equality of their parts (the POSIX flavour of
  pathlib).
\<close>

type_synonym path = "string list"

definition is_anchor :: "string \<Rightarrow> bool" where
  "is_anchor part = (CHR ''/'' \<in> set part \<or> CHR 0x5C \<in> set part)"

fun join_with :: "string \<Rightarrow> string list \<Rightarrow> string" where
  "join_with sep [] = []"
| "join_with sep [x] = x"
| "join_with sep (x # y # ys) = x @ sep @ join_with sep (y # ys)"

text \<open>\<^verbatim>\<open>str(path)\<close> and \<^verbatim>\<open>path.as_posix()\<close> (POSIX flavour).\<close>

fun path_str :: "path \<Rightarrow> string" where
  "path_str [] = ''.''"
| "path_str (a # rest) =
     (if is_anchor a then a @ join_with ''/'' rest else join_with ''/'' (a # rest))"

text \<open>\<^verbatim>\<open>path.name\<close>: the final component, empty for a bare anchor.\<close>

definition path_name :: "path \<Rightarrow> string" where
  "path_name p = (case rev p of [] \<Rightarrow> [] | x # _ \<Rightarrow> if is_anchor x then [] else x)"

text \<open>
  \<^verbatim>\<open>path.suffix\<close>: with \<^verbatim>\<open>i = name.rfind('.')\<close>, the text from \<^verbatim>\<open>i\<close> on when
  \<^verbatim>\<open>0 < i < len(name) - 1\<close>, and the empty string otherwise.
\<close>

definition rfind_dot :: "string \<Rightarrow> nat option" where
  "rfind_dot name =
     (let k = length (takeWhile (\<lambda>c. c \<noteq> CHR ''.'') (rev name))
      in if k = length name then None else Some (length name - 1 - k))"

definition path_suffix :: "path \<Rightarrow> string" where
  "path_suffix p =
     (let name = path_name p
      in case rfind_dot name of
           None \<Rightarrow> []
         | Some i \<Rightarrow> if 0 < i \<and> i < length name - 1 then drop i name else [])"

definition lower_char :: "char \<Rightarrow> char" where
  "lower_char c =
     (if (65::nat) \<le> of_char c \<and> of_char c \<le> (90::nat) then char_of (of_char c + (32::nat)) else c)"

definition lower :: "string \<Rightarrow> string" where
  "lower s = map lower_char s"

text \<open>
  \<^verbatim>\<open>path.relative_to(parent)\<close>: the remaining parts when the parts of \<^verbatim>\<open>parent\<close> are a prefix of
  the parts of \<^verbatim>\<open>path\<close>; \<^verbatim>\<open>ValueError\<close> (here \<open>None\<close>) otherwise.
\<close>

fun relative_to :: "path \<Rightarrow> path \<Rightarrow> path option" where
  "relative_to p [] = Some p"
| "relative_to [] (y # ys) = None"
| "relative_to (x # xs) (y # ys) = (if x = y then relative_to xs ys else None)"

section \<open>Python floats\<close>

text \<open>
  Python floats: the finite values as reals, the two infinities and NaN. A comparison with
  NaN is false. \<^verbatim>\<open>max(a, b)\<close> keeps \<open>a\<close> unless \<open>b > a\<close>, \<^verbatim>\<open>min(a, b)\<close> keeps \<open>a\<close> unless
  \<open>b < a\<close>. A product by 1024 is exact unless it exceeds the largest finite double, and is
  an infinity then. \<^verbatim>\<open>int(x)\<close> truncates towards zero and raises \<^verbatim>\<open>OverflowError\<close> on an
  infinity and \<^verbatim>\<open>ValueError\<close> on NaN.
\<close>

datatype pyfloat = Float real | PosInf | NegInf | NaN

datatype exn = OverflowError | ValueError

definition DBL_MAX :: real where
  "DBL_MAX = 2 ^ 1024 - 2 ^ 971"

fun fgt :: "pyfloat \<Rightarrow> pyfloat \<Rightarrow> bool" where
  "fgt (Float x) (Float y) = (y < x)"
| "fgt PosInf (Float y) = True"
| "fgt PosInf NegInf = True"
| "fgt (Float x) NegInf = True"
| "fgt _ _ = False"

definition py_max :: "pyfloat \<Rightarrow> pyfloat \<Rightarrow> pyfloat" where
  "py_max a b = (if fgt b a then b else a)"

definition py_min :: "pyfloat \<Rightarrow> pyfloat \<Rightarrow> pyfloat" where
  "py_min a b = (if fgt a b then b else a)"

fun times_1024 :: "pyfloat \<Rightarrow> pyfloat" where
  "times_1024 (Float x) =
     (if DBL_MAX < x * 1024 then PosInf
      else if x * 1024 < - DBL_MAX then NegInf
      else Float (x * 1024))"
| "times_1024 PosInf = PosInf"
| "times_1024 NegInf = NegInf"
| "times_1024 NaN = NaN"

fun py_int :: "pyfloat \<Rightarrow> exn + int" where
  "py_int (Float x) = Inr (if 0 \<le> x then \<lfloor>x\<rfloor> else \<lceil>x\<rceil>)"
| "py_int PosInf = Inl OverflowError"
| "py_int NegInf = Inl OverflowError"
| "py_int NaN = Inl ValueError"

section \<open>The environment\<close>

text \<open>
  Everything the program reads from outside itself is a field of the environment: the
  platform, the file system, the optional decoders, the clock, the full-text engine of
  SQLite and the cancellation flag as the run observes it.
\<close>

datatype fstree = FsUnreadable | FsDir "string list" fsdirs
  and fsdirs = FsNil | FsCons string bool fstree fsdirs

record file_stat =
  st_mtime :: real
  st_size :: int

record env =
  clean :: "path \<Rightarrow> path"
  os_name_nt :: bool
  platform_darwin :: bool
  userprofile :: path
  home :: path
  cwd :: "path option"
  fts5_supported :: bool
  path_exists :: "path \<Rightarrow> bool"
  dir_tree :: "path \<Rightarrow> fstree"
  stat :: "path \<Rightarrow> string + file_stat"
  read_text :: "path \<Rightarrow> string + string"
  fitz_available :: bool
  pdf_pages :: "path \<Rightarrow> string + string list"
  docx_available :: bool
  docx_paragraphs :: "path \<Rightarrow> string + string list"
  ipynb_markdown :: "path \<Rightarrow> string + string list"
  fmt_1f :: "pyfloat \<Rightarrow> string"
  utcnow :: string
  time_now :: real
  crawl_cancel :: "nat \<Rightarrow> bool"
  loop_cancel :: "nat \<Rightarrow> bool"
  fts5_match ::
    "(nat \<times> string) list \<Rightarrow> string \<Rightarrow> nat \<Rightarrow> string + (nat \<times> string option \<times> real option) list"
  like_query_raises :: "string \<Rightarrow> nat \<Rightarrow> bool"
  fromtimestamp_ok :: "real \<Rightarrow> bool"

text \<open>
  \<^item> \<open>clean\<close> is \<^verbatim>\<open>_clean\<close>: \<^verbatim>\<open>path.expanduser().resolve()\<close>, or the path itself on \<^verbatim>\<open>OSError\<close>.
  \<^item> \<open>dir_tree root\<close> is what \<^verbatim>\<open>os.walk(root, followlinks=False)\<close> can enumerate: for each
    directory its file names and its sub-directory entries (name, is-a-symlink, subtree);
    a directory that cannot be listed is \<open>FsUnreadable\<close> (\<^verbatim>\<open>os.walk\<close> skips it silently).
  \<^item> \<open>stat\<close>, \<open>read_text\<close>, \<open>pdf_pages\<close>, \<open>docx_paragraphs\<close>, \<open>ipynb_markdown\<close> return
    \<open>Inl\<close> with the exception text when the call raises.
  \<^item> \<open>crawl_cancel k\<close> is what \<^verbatim>\<open>cancel_event.is_set()\<close> answers at the \<open>k\<close>-th directory
    of the crawl (from 0), \<open>loop_cancel i\<close> what it answers at candidate \<open>i\<close> (from 1).
  \<^item> \<open>fts5_match rows q n\<close> is the answer of SQLite's FTS5 to \<^verbatim>\<open>MATCH q ORDER BY bm25 LIMIT n\<close>
    over the content rows (rowid, content): \<open>Inl\<close> with the error when SQLite refuses the
    statement (a \<^verbatim>\<open>MATCH\<close> expression that is no FTS5 query, such as one with a backslash, or
    a limit beyond 64 bits), otherwise rowid, \<^verbatim>\<open>snippet(...)\<close> and \<^verbatim>\<open>bm25(...)\<close> of every hit in
    rank order (the join with \<open>files\<close> and the cut at \<open>n\<close> rows are made by the model).
  \<^item> \<open>like_query_raises pattern n\<close>: SQLite refuses the \<^verbatim>\<open>LIKE\<close> query of the fallback backend
    (a pattern longer than the engine allows, a limit beyond 64 bits).
  \<^item> \<open>fromtimestamp_ok t\<close>: \<^verbatim>\<open>datetime.fromtimestamp(t)\<close> returns (it raises for a time
    outside the years 1 to 9999 or outside the platform's range).
  \<^item> Time stamps and scores are modelled as reals.
\<close>

section \<open>modules/path\_policies.py\<close>

text \<open>
  \<^verbatim>\<open>normalise_paths(values)\<close>: \<open>None\<close> or an empty sequence gives the empty list; a \<open>None\<close>
  entry is skipped; an entry whose \<^verbatim>\<open>as_posix().lower()\<close> was seen before is skipped.
\<close>

fun normalise_loop :: "env \<Rightarrow> path option list \<Rightarrow> string list \<Rightarrow> path list \<Rightarrow> path list" where
  "normalise_loop E [] seen paths = paths"
| "normalise_loop E (None # rest) seen paths = normalise_loop E rest seen paths"
| "normalise_loop E (Some entry # rest) seen paths =
     (let p = clean E entry; key = lower (path_str p)
      in if key \<in> set seen then normalise_loop E rest seen paths
         else normalise_loop E rest (key # seen) (paths @ [p]))"

definition normalise_paths :: "env \<Rightarrow> path option list option \<Rightarrow> path list" where
  "normalise_paths E values =
     (case values of None \<Rightarrow> [] | Some vs \<Rightarrow> normalise_loop E vs [] [])"

definition windows_exclusions :: "env \<Rightarrow> path list" where
  "windows_exclusions E =
     (let drive = [CHR ''C'', CHR '':'', CHR 0x5C];
          system_dirs = [[drive, ''Windows''], [drive, ''Program Files''],
                         [drive, ''Program Files (x86)''], [drive, ''ProgramData'']];
          appdata = userprofile E @ [''AppData'']
      in normalise_paths E (Some (map Some
           (system_dirs @ [appdata, [drive, ''pagefile.sys''], [drive, ''hiberfil.sys''],
              [drive, ''System Volume Information''], [drive, ''$Recycle.Bin'']]))))"

definition linux_dirs :: "path list" where
  "linux_dirs = [[''/'', ''bin''], [''/'', ''boot''], [''/'', ''dev''], [''/'', ''etc''],
     [''/'', ''lib''], [''/'', ''proc''], [''/'', ''root''], [''/'', ''run''], [''/'', ''sbin''],
     [''/'', ''sys''], [''/'', ''tmp''], [''/'', ''usr'']]"

definition mac_dirs :: "path list" where
  "mac_dirs = [[''/'', ''System''], [''/'', ''bin''], [''/'', ''sbin''], [''/'', ''usr''],
     [''/'', ''private'', ''var''], [''/'', ''Library''], [''/'', ''dev'']]"

definition posix_exclusions :: "env \<Rightarrow> path list" where
  "posix_exclusions E =
     (if platform_darwin E then normalise_paths E (Some (map Some mac_dirs))
      else normalise_paths E (Some (map Some linux_dirs)))"

definition default_allowed_roots :: "env \<Rightarrow> path list" where
  "default_allowed_roots E =
     (let roots = [home E];
          roots = (case cwd E of
                     None \<Rightarrow> roots
                   | Some c \<Rightarrow> if c \<notin> set roots then roots @ [c] else roots)
      in normalise_paths E (Some (map Some roots)))"

definition default_excluded_paths :: "env \<Rightarrow> path list" where
  "default_excluded_paths E =
     (if os_name_nt E then windows_exclusions E else posix_exclusions E)"

definition is_under :: "env \<Rightarrow> path \<Rightarrow> path \<Rightarrow> bool" where
  "is_under E p parent =
     (case relative_to (clean E p) (clean E parent) of Some _ \<Rightarrow> True | None \<Rightarrow> False)"

fun allowed_loop :: "env \<Rightarrow> path \<Rightarrow> path list \<Rightarrow> bool \<times> string option" where
  "allowed_loop E p [] = (False, Some ''Outside allowed roots'')"
| "allowed_loop E p (r # roots) =
     (if is_under E p r \<or> p = r then (True, None) else allowed_loop E p roots)"

fun excluded_loop :: "env \<Rightarrow> path \<Rightarrow> path list \<Rightarrow> path list \<Rightarrow> bool \<times> string option" where
  "excluded_loop E p allowed_roots [] = allowed_loop E p allowed_roots"
| "excluded_loop E p allowed_roots (entry # excluded) =
     (if is_under E p entry then (False, Some (''Excluded path: '' @ path_str entry))
      else excluded_loop E p allowed_roots excluded)"

definition is_allowed :: "env \<Rightarrow> path \<Rightarrow> path list \<Rightarrow> path list \<Rightarrow> bool \<times> string option" where
  "is_allowed E p allowed_roots excluded = excluded_loop E (clean E p) allowed_roots excluded"

section \<open>modules/data\_indexer.py: state\<close>

text \<open>
  The SQLite tables, as lists of rows in table order. \<open>files\<close> has the columns of the
  schema; \<open>file_content\<close> is keyed by \<open>rowid\<close> (FTS5 backend, with the \<open>path\<close> column) or by
  \<open>file_id\<close> (fallback backend, no path column: \<open>c_path\<close> is \<open>None\<close>). The \<open>metadata\<close> table
  is modelled by the three keys the program writes.
\<close>

record file_row =
  f_id :: nat
  f_path :: path
  f_mtime :: real
  f_size :: int
  f_indexed_at :: string

record content_row =
  c_rowid :: nat
  c_path :: "path option"
  c_content :: string

record database =
  db_files :: "file_row list"
  db_file_content :: "content_row list"
  db_base_path :: "path option"
  db_last_indexed :: "string option"
  db_document_count :: "nat option"

record indexer =
  base_path :: path
  allowed_extensions :: "string list"
  allowed_roots :: "path list"
  excluded_paths :: "path list"
  max_file_size_mb :: pyfloat
  max_file_size_bytes :: int
  fts_available :: bool
  files :: "file_row list"
  file_content :: "content_row list"
  meta_base_path :: "path option"
  meta_last_indexed :: "string option"
  meta_document_count :: "nat option"
  last_skipped :: "(string \<times> string) list"
  last_errors :: "(string \<times> string) list"

definition ALLOWED_EXTENSIONS :: "string list" where
  "ALLOWED_EXTENSIONS = [''.txt'', ''.md'', ''.markdown'', ''.rst'', ''.py'', ''.json'', ''.cfg'',
     ''.ini'', ''.yaml'', ''.yml'', ''.csv'', ''.toml'', ''.js'', ''.ts'', ''.jsx'', ''.tsx'', ''.html'',
     ''.css'', ''.scss'', ''.less'', ''.pdf'', ''.docx'', ''.log'', ''.ipynb'']"

definition TEXT_EXTENSIONS :: "string list" where
  "TEXT_EXTENSIONS = [''.txt'', ''.md'', ''.markdown'', ''.rst'', ''.json'', ''.cfg'', ''.ini'',
     ''.yaml'', ''.yml'', ''.csv'', ''.toml'', ''.log'', ''.html'', ''.css'', ''.scss'', ''.less'']"

definition CODE_EXTENSIONS :: "string list" where
  "CODE_EXTENSIONS = [''.py'', ''.js'', ''.ts'', ''.jsx'', ''.tsx'']"

definition MAX_SNIPPET_CHARS :: nat where
  "MAX_SNIPPET_CHARS = 6000"

text \<open>
  \<^verbatim>\<open>DataIndexer.__init__\<close>. \<open>db\<close> is the database file as found at \<^verbatim>\<open>db_path\<close> (empty tables
  when it is new); \<^verbatim>\<open>x or y\<close> on lists takes \<open>y\<close> when \<open>x\<close> is empty. The conversion of the
  byte ceiling can raise, and then no indexer is constructed: the result \<open>Inl\<close>. The flag
  \<open>fts_available\<close> stays \<open>True\<close> unless \<^verbatim>\<open>CREATE VIRTUAL TABLE\<close> raises; the content table of a
  database that exists already is taken to be of the kind the flag announces (a database
  written under the other backend makes the later statements on \<open>file_content\<close> raise, which
  is not modelled).
\<close>

definition init ::
  "env \<Rightarrow> path \<Rightarrow> database \<Rightarrow> path option list option \<Rightarrow> path option list option \<Rightarrow> pyfloat \<Rightarrow>
   exn + indexer"
where
  "init E base db allowed excluded mb =
     (let roots = normalise_paths E allowed;
          excl = normalise_paths E excluded;
          size_mb = py_max (Float 1) mb
      in case py_int (times_1024 (times_1024 size_mb)) of
           Inl e \<Rightarrow> Inl e
         | Inr bytes \<Rightarrow>
             Inr \<lparr> base_path = clean E base,
                   allowed_extensions = map lower ALLOWED_EXTENSIONS,
                   allowed_roots = (if roots = [] then default_allowed_roots E else roots),
                   excluded_paths = (if excl = [] then default_excluded_paths E else excl),
                   max_file_size_mb = size_mb,
                   max_file_size_bytes = bytes,
                   fts_available = fts5_supported E,
                   files = db_files db,
                   file_content = db_file_content db,
                   meta_base_path = db_base_path db,
                   meta_last_indexed = db_last_indexed db,
                   meta_document_count = db_document_count db,
                   last_skipped = [],
                   last_errors = [] \<rparr>)"

text \<open>
  \<^verbatim>\<open>DataIndexer.update_policy\<close>: each argument is applied when it is not \<open>None\<close>. The
  attributes are assigned one after the other, so when the conversion of the byte ceiling
  raises, the result \<open>Inl\<close> carries the indexer as the exception leaves it: roots, excluded
  paths and \<open>max_file_size_mb\<close> updated, \<open>max_file_size_bytes\<close> as before.
\<close>

definition update_policy ::
  "env \<Rightarrow> indexer \<Rightarrow> path option list option \<Rightarrow> path option list option \<Rightarrow> pyfloat option \<Rightarrow>
   (exn \<times> indexer) + indexer"
where
  "update_policy E s allowed excluded mb =
     (let s1 = (case allowed of
                  None \<Rightarrow> s
                | Some _ \<Rightarrow>
                    (let roots = normalise_paths E allowed
                     in s\<lparr>allowed_roots := (if roots = [] then default_allowed_roots E else roots)\<rparr>));
          s2 = (case excluded of
                  None \<Rightarrow> s1
                | Some _ \<Rightarrow>
                    (let base = default_excluded_paths E;
                         extras = normalise_paths E excluded
                     in s1\<lparr>excluded_paths := base @ filter (\<lambda>p. p \<notin> set base) extras\<rparr>))
      in case mb of
           None \<Rightarrow> Inr s2
         | Some x \<Rightarrow>
             (let s3 = s2\<lparr>max_file_size_mb := py_max (Float 1) x\<rparr>
              in case py_int (times_1024 (times_1024 (max_file_size_mb s3))) of
                   Inl e \<Rightarrow> Inl (e, s3)
                 | Inr bytes \<Rightarrow> Inr (s3\<lparr>max_file_size_bytes := bytes\<rparr>)))"

text \<open>
  \<^verbatim>\<open>AppCore.set_max_index_file_size\<close> with \<^verbatim>\<open>AppCore._sync_indexer_policy\<close> (app\_core.py), the
  caller that clamps to 1..2048: it hands the indexer the application's allowed roots and
  excluded paths together with the clamped value.
\<close>

definition set_max_index_file_size ::
  "env \<Rightarrow> indexer \<Rightarrow> path list \<Rightarrow> path list \<Rightarrow> pyfloat \<Rightarrow> (exn \<times> indexer) + indexer"
where
  "set_max_index_file_size E s app_allowed app_excluded v =
     (let size = py_max (Float 1) (py_min v (Float 2048))
      in update_policy E s (Some (map Some app_allowed)) (Some (map Some app_excluded)) (Some size))"

section \<open>modules/data\_indexer.py: the store\<close>

text \<open>
  SQLite gives a row inserted without an explicit \<open>id\<close> the largest rowid in the table plus
  one (1 in an empty table), and chooses it before \<^verbatim>\<open>INSERT OR REPLACE\<close> deletes the rows
  that conflict with the new one (same \<open>path\<close> in \<open>files\<close>, same rowid in the content table).
  So a replaced \<open>files\<close> row always gets an \<open>id\<close> that no row of the table had.
\<close>

definition next_rowid :: "nat list \<Rightarrow> nat" where
  "next_rowid ids = fold max ids 0 + 1"

definition replace_file :: "file_row list \<Rightarrow> path \<Rightarrow> file_stat \<Rightarrow> string \<Rightarrow> file_row list" where
  "replace_file rows p st ts =
     filter (\<lambda>r. f_path r \<noteq> p) rows @
       [\<lparr> f_id = next_rowid (map f_id rows), f_path = p, f_mtime = st_mtime st,
          f_size = st_size st, f_indexed_at = ts \<rparr>]"

text \<open>\<^verbatim>\<open>SELECT id FROM files WHERE path = ?\<close>, first row.\<close>

definition select_id :: "file_row list \<Rightarrow> path \<Rightarrow> nat option" where
  "select_id rows p = (case filter (\<lambda>r. f_path r = p) rows of [] \<Rightarrow> None | r # _ \<Rightarrow> Some (f_id r))"

definition replace_content :: "content_row list \<Rightarrow> nat \<Rightarrow> path option \<Rightarrow> string \<Rightarrow> content_row list" where
  "replace_content rows rid p content =
     filter (\<lambda>c. c_rowid c \<noteq> rid) rows @ [\<lparr> c_rowid = rid, c_path = p, c_content = content \<rparr>]"

text \<open>
  \<^verbatim>\<open>_upsert_file\<close>, for a call whose SQLite statements are accepted. On the FTS5 backend the
  rowid of the content row is the sub-select's value (a \<open>NULL\<close> would let SQLite choose the
  next rowid); on the fallback backend \<^verbatim>\<open>fetchone()[0]\<close> raises \<^verbatim>\<open>TypeError\<close> when there is no
  such row: the result \<open>None\<close>.

  The two \<^verbatim>\<open>INSERT\<close>s and the \<^verbatim>\<open>commit\<close> are separate statements and nothing rolls back:
  when the second \<^verbatim>\<open>INSERT\<close> raises (sqlite3 refuses a text with a lone surrogate, which
  \<^verbatim>\<open>json.loads\<close> yields for a notebook cell), the exception leaves \<^verbatim>\<open>rebuild_index\<close> and the
  connection holds the new \<open>files\<close> row with the content table as it was:
  \<open>upsert_file_interrupted\<close>. The model of \<^verbatim>\<open>rebuild_index\<close> below follows the runs in which
  every statement is accepted.
\<close>

definition upsert_file :: "env \<Rightarrow> indexer \<Rightarrow> path \<Rightarrow> file_stat \<Rightarrow> string \<Rightarrow> indexer option" where
  "upsert_file E s p st content =
     (let fs = replace_file (files s) p st (utcnow E)
      in if fts_available s then
           (let rid = (case select_id fs p of
                         Some i \<Rightarrow> i
                       | None \<Rightarrow> next_rowid (map c_rowid (file_content s)))
            in Some (s\<lparr>files := fs,
                       file_content := replace_content (file_content s) rid (Some p) content\<rparr>))
         else
           (case select_id fs p of
              None \<Rightarrow> None
            | Some i \<Rightarrow>
                Some (s\<lparr>files := fs,
                        file_content := replace_content (file_content s) i None content\<rparr>)))"

definition upsert_file_interrupted :: "env \<Rightarrow> indexer \<Rightarrow> path \<Rightarrow> file_stat \<Rightarrow> indexer" where
  "upsert_file_interrupted E s p st = s\<lparr>files := replace_file (files s) p st (utcnow E)\<rparr>"

text \<open>
  \<^verbatim>\<open>_delete_file\<close>: the FTS5 backend deletes the content rows of that path, the fallback
  backend every content row whose \<open>file_id\<close> is no \<open>id\<close> of \<open>files\<close>.
\<close>

definition delete_file :: "indexer \<Rightarrow> path \<Rightarrow> indexer" where
  "delete_file s p =
     (let fs = filter (\<lambda>r. f_path r \<noteq> p) (files s)
      in if fts_available s then
           s\<lparr>files := fs, file_content := filter (\<lambda>c. c_path c \<noteq> Some p) (file_content s)\<rparr>
         else
           s\<lparr>files := fs,
             file_content := filter (\<lambda>c. c_rowid c \<in> set (map f_id fs)) (file_content s)\<rparr>)"

text \<open>The \<open>id\<close> an upsert of \<open>p\<close> gives the new \<open>files\<close> row.\<close>

definition new_id :: "indexer \<Rightarrow> path \<Rightarrow> nat" where
  "new_id s p = next_rowid (map f_id (files s))"

definition count_files :: "indexer \<Rightarrow> nat" where
  "count_files s = length (files s)"

text \<open>
  The rows the queries of \<^verbatim>\<open>search\<close> join: the content of the rows of \<open>file_content\<close> whose
  rowid is the \<open>id\<close> of a \<open>files\<close> row of path \<open>p\<close>.
\<close>

definition linked_content :: "indexer \<Rightarrow> path \<Rightarrow> string list" where
  "linked_content s p =
     concat (map (\<lambda>r. map c_content (filter (\<lambda>c. c_rowid c = f_id r) (file_content s)))
       (filter (\<lambda>r. f_path r = p) (files s)))"

text \<open>The content rows whose rowid is the \<open>id\<close> of no \<open>files\<close> row.\<close>

definition orphan_content :: "indexer \<Rightarrow> content_row list" where
  "orphan_content s = filter (\<lambda>c. c_rowid c \<notin> set (map f_id (files s))) (file_content s)"

definition file_paths :: "indexer \<Rightarrow> path set" where
  "file_paths s = set (map f_path (files s))"

text \<open>
  The paths that have a content row: by the \<open>path\<close> column on the FTS5 backend, by the
  \<open>file_id\<close> link on the fallback backend (whose content table has no path column).
\<close>

definition content_paths :: "indexer \<Rightarrow> path set" where
  "content_paths s =
     (if fts_available s then {p. Some p \<in> set (map c_path (file_content s))}
      else set (map f_path (filter (\<lambda>r. f_id r \<in> set (map c_rowid (file_content s))) (files s))))"

text \<open>
  The store invariant: every \<open>files\<close> row has a content row under its \<open>id\<close> (on the FTS5
  backend one that carries its path), and on the FTS5 backend every content row carries
  the path of some \<open>files\<close> row.
\<close>

definition has_content :: "indexer \<Rightarrow> file_row \<Rightarrow> bool" where
  "has_content s r =
     list_ex (\<lambda>c. c_rowid c = f_id r \<and> (fts_available s \<longrightarrow> c_path c = Some (f_path r)))
       (file_content s)"

definition store_inv :: "indexer \<Rightarrow> bool" where
  "store_inv s =
     (list_all (has_content s) (files s) \<and>
      (fts_available s \<longrightarrow>
         list_all (\<lambda>c. list_ex (\<lambda>r. c_path c = Some (f_path r)) (files s)) (file_content s)))"


section \<open>modules/data\_indexer.py: crawl, extraction and rebuild\<close>

definition record_skip :: "indexer \<Rightarrow> path \<Rightarrow> string \<Rightarrow> indexer" where
  "record_skip s p reason = s\<lparr>last_skipped := last_skipped s @ [(path_str p, reason)]\<rparr>"

definition record_error :: "indexer \<Rightarrow> path \<Rightarrow> string \<Rightarrow> indexer" where
  "record_error s p reason = s\<lparr>last_errors := last_errors s @ [(path_str p, reason)]\<rparr>"

definition check_allowed :: "env \<Rightarrow> indexer \<Rightarrow> path \<Rightarrow> bool \<times> string option" where
  "check_allowed E s p = is_allowed E p (allowed_roots s) (excluded_paths s)"

text \<open>\<^verbatim>\<open>reason or "Excluded path"\<close>.\<close>

definition reason_or_default :: "string option \<Rightarrow> string" where
  "reason_or_default reason =
     (case reason of None \<Rightarrow> ''Excluded path'' | Some r \<Rightarrow> if r = [] then ''Excluded path'' else r)"

definition get_base_path :: "env \<Rightarrow> indexer \<Rightarrow> path" where
  "get_base_path E s = (case meta_base_path s of Some saved \<Rightarrow> clean E saved | None \<Rightarrow> base_path s)"

text \<open>
  \<^verbatim>\<open>_collect_candidates\<close>. The walk reads the policy of the indexer (\<^verbatim>\<open>_check_allowed\<close>,
  \<^verbatim>\<open>allowed_extensions\<close>) and appends to its skip records (\<^verbatim>\<open>_record_skip\<close>); its state is
  the skip records, the candidates so far, the resolved directories visited, the number of
  times the cancel flag was read, and whether the loop was left by \<^verbatim>\<open>break\<close>.
\<close>

record crawl =
  cr_skipped :: "(string \<times> string) list"
  cr_candidates :: "path list"
  cr_visited :: "path list"
  cr_polls :: nat
  cr_stopped :: bool

text \<open>The loop over \<^verbatim>\<open>dirnames\<close>: the names kept, in order, and the skips recorded.\<close>

fun prune_dirs ::
  "env \<Rightarrow> indexer \<Rightarrow> path \<Rightarrow> string list \<Rightarrow> string list \<Rightarrow> (string \<times> string) list
     \<Rightarrow> string list \<times> (string \<times> string) list"
where
  "prune_dirs E s dir [] pruned skipped = (pruned, skipped)"
| "prune_dirs E s dir (dirname # rest) pruned skipped =
     (let subdir = dir @ [dirname]
      in case check_allowed E s subdir of
           (True, _) \<Rightarrow> prune_dirs E s dir rest (pruned @ [dirname]) skipped
         | (False, reason) \<Rightarrow>
             prune_dirs E s dir rest pruned
               (skipped @ [(path_str subdir, reason_or_default reason)]))"

text \<open>The loop over \<^verbatim>\<open>filenames\<close>.\<close>

fun scan_files :: "env \<Rightarrow> indexer \<Rightarrow> path \<Rightarrow> string list \<Rightarrow> crawl \<Rightarrow> crawl" where
  "scan_files E s dir [] c = c"
| "scan_files E s dir (filename # rest) c =
     (let p = dir @ [filename]
      in if lower (path_suffix p) \<notin> set (allowed_extensions s) then scan_files E s dir rest c
         else case check_allowed E s p of
                (True, _) \<Rightarrow> scan_files E s dir rest (c\<lparr>cr_candidates := cr_candidates c @ [p]\<rparr>)
              | (False, reason) \<Rightarrow>
                  scan_files E s dir rest
                    (c\<lparr>cr_skipped := cr_skipped c @ [(path_str p, reason_or_default reason)]\<rparr>))"

fun dir_names :: "fsdirs \<Rightarrow> string list" where
  "dir_names FsNil = []"
| "dir_names (FsCons name link t rest) = name # dir_names rest"

text \<open>
  \<^verbatim>\<open>os.walk(root, followlinks=False)\<close>, top-down, together with the body of the loop:
  \<open>walk\<close> is one directory as the generator yields it, \<open>walk_dirs\<close> the descent into the
  sub-directories whose names the body left in \<^verbatim>\<open>dirnames\<close> (symlinks are listed but not
  entered). After a \<^verbatim>\<open>break\<close> nothing more is visited.
\<close>

fun walk :: "env \<Rightarrow> indexer \<Rightarrow> path \<Rightarrow> fstree \<Rightarrow> crawl \<Rightarrow> crawl"
  and walk_dirs :: "env \<Rightarrow> indexer \<Rightarrow> path \<Rightarrow> string list \<Rightarrow> fsdirs \<Rightarrow> crawl \<Rightarrow> crawl" where
  "walk E s dir FsUnreadable c = c"
| "walk E s dir (FsDir filenames subdirs) c =
     (if cr_stopped c then c
      else if crawl_cancel E (cr_polls c) then c\<lparr>cr_polls := cr_polls c + 1, cr_stopped := True\<rparr>
      else
        (let c1 = c\<lparr>cr_polls := cr_polls c + 1\<rparr>;
             resolved = clean E dir
         in if resolved \<in> set (cr_visited c1) then c1
            else
              (let c2 = c1\<lparr>cr_visited := cr_visited c1 @ [resolved]\<rparr>
               in case check_allowed E s dir of
                    (False, reason) \<Rightarrow>
                      c2\<lparr>cr_skipped := cr_skipped c2 @ [(path_str dir, reason_or_default reason)]\<rparr>
                  | (True, _) \<Rightarrow>
                      (case prune_dirs E s dir (dir_names subdirs) [] (cr_skipped c2) of
                         (pruned, skipped) \<Rightarrow>
                           walk_dirs E s dir pruned subdirs
                             (scan_files E s dir filenames (c2\<lparr>cr_skipped := skipped\<rparr>))))))"
| "walk_dirs E s dir pruned FsNil c = c"
| "walk_dirs E s dir pruned (FsCons name link t rest) c =
     walk_dirs E s dir pruned rest
       (if name \<in> set pruned \<and> \<not> link then walk E s (dir @ [name]) t c else c)"

definition collect_candidates :: "env \<Rightarrow> indexer \<Rightarrow> path \<Rightarrow> path list \<times> indexer" where
  "collect_candidates E s root_dir =
     (let c = walk E s root_dir (dir_tree E root_dir)
                \<lparr> cr_skipped = last_skipped s, cr_candidates = [], cr_visited = [],
                  cr_polls = 0, cr_stopped = False \<rparr>
      in (cr_candidates c, s\<lparr>last_skipped := cr_skipped c\<rparr>))"

text \<open>
  \<^verbatim>\<open>_read_text_snippet\<close>: (snippet, note). Any exception while reading gives
  \<open>(None, Read error: ...)\<close>.
\<close>

definition read_text_snippet :: "env \<Rightarrow> indexer \<Rightarrow> path \<Rightarrow> int \<Rightarrow> string option \<times> string option" where
  "read_text_snippet E s p size_bytes =
     (let suffix = lower (path_suffix p)
      in if size_bytes > max_file_size_bytes s then
           (Some (path_name p),
            Some (''Skipped content (>'' @ fmt_1f E (max_file_size_mb s) @ '' MB)''))
         else if suffix \<in> set TEXT_EXTENSIONS \<or> suffix \<in> set CODE_EXTENSIONS then
           (case read_text E p of
              Inl exc \<Rightarrow> (None, Some (''Read error: '' @ exc))
            | Inr txt \<Rightarrow> (Some (take MAX_SNIPPET_CHARS txt), None))
         else if suffix = ''.pdf'' then
           (if \<not> fitz_available E then (Some (path_name p), Some ''PDF text extraction unavailable'')
            else case pdf_pages E p of
                   Inl exc \<Rightarrow> (None, Some (''Read error: '' @ exc))
                 | Inr pages \<Rightarrow> (Some (take MAX_SNIPPET_CHARS (join_with [CHR 0x0A] pages)), None))
         else if suffix = ''.docx'' then
           (if \<not> docx_available E then (Some (path_name p), Some ''DOCX text extraction unavailable'')
            else case docx_paragraphs E p of
                   Inl exc \<Rightarrow> (None, Some (''Read error: '' @ exc))
                 | Inr paragraphs \<Rightarrow>
                     (Some (take MAX_SNIPPET_CHARS (join_with [CHR 0x0A] paragraphs)), None))
         else if suffix = ''.ipynb'' then
           (case ipynb_markdown E p of
              Inl exc \<Rightarrow> (None, Some (''Read error: '' @ exc))
            | Inr cells \<Rightarrow> (Some (take MAX_SNIPPET_CHARS (join_with [CHR 0x0A] cells)), None))
         else (None, Some ''Unsupported format''))"

text \<open>
  The snapshot \<^verbatim>\<open>existing = {Path(row["path"]): (row["mtime"], row["size"]) ...}\<close>: a later row
  of the same path overrides an earlier one.
\<close>

definition snapshot :: "file_row list \<Rightarrow> path \<Rightarrow> (real \<times> int) option" where
  "snapshot rows = map_of (rev (map (\<lambda>r. (f_path r, (f_mtime r, f_size r))) rows))"

text \<open>The state of the loop over the candidates, and the calls of the progress callback.\<close>

record run =
  run_ix :: indexer
  run_updated :: nat
  run_processed :: nat
  run_seen :: "path list"
  run_cancelled :: bool
  run_progress :: "(nat \<times> nat \<times> string) list"

definition on_progress :: "bool \<Rightarrow> nat \<Rightarrow> nat \<Rightarrow> path \<Rightarrow> run \<Rightarrow> run" where
  "on_progress has_callback idx tot p r =
     (if has_callback then r\<lparr>run_progress := run_progress r @ [(idx, tot, path_str p)]\<rparr> else r)"

text \<open>
  The body of the loop \<^verbatim>\<open>for idx, path in enumerate(candidates, start=1)\<close> of
  \<^verbatim>\<open>rebuild_index\<close>, after the test of the cancel flag. \<open>existing\<close> is the snapshot taken
  before the loop. The result is \<open>None\<close> when \<^verbatim>\<open>_upsert_file\<close> raises.
\<close>

definition loop_body ::
  "env \<Rightarrow> bool \<Rightarrow> nat \<Rightarrow> (path \<Rightarrow> (real \<times> int) option) \<Rightarrow> nat \<Rightarrow> path \<Rightarrow> run \<Rightarrow> run option"
where
  "loop_body E cb tot existing idx p r =
     (let r1 = r\<lparr>run_seen := run_seen r @ [p], run_processed := run_processed r + 1\<rparr>
      in case stat E p of
           Inl exc \<Rightarrow>
             Some (r1\<lparr>run_ix := record_error (run_ix r1) p (''Stat failed: '' @ exc)\<rparr>)
         | Inr st \<Rightarrow>
             if existing p = Some (st_mtime st, st_size st) then Some (on_progress cb idx tot p r1)
             else
               (case read_text_snippet E (run_ix r1) p (st_size st) of
                  (snippet, note) \<Rightarrow>
                    (let content = (case snippet of
                                      None \<Rightarrow> path_name p @ '' (no readable text found)''
                                    | Some t \<Rightarrow> t)
                     in case upsert_file E (run_ix r1) p st content of
                          None \<Rightarrow> None
                        | Some s' \<Rightarrow>
                            (let s'' = (case note of
                                          None \<Rightarrow> s'
                                        | Some n \<Rightarrow> if n = [] then s' else record_skip s' p n)
                             in Some (on_progress cb idx tot p
                                        (r1\<lparr>run_ix := s'', run_updated := run_updated r1 + 1\<rparr>))))))"

text \<open>The loop: it is left by \<^verbatim>\<open>break\<close> as soon as the cancel flag is seen set.\<close>

fun rebuild_loop ::
  "env \<Rightarrow> bool \<Rightarrow> nat \<Rightarrow> (path \<Rightarrow> (real \<times> int) option) \<Rightarrow> nat \<Rightarrow> path list \<Rightarrow> run \<Rightarrow> run option"
where
  "rebuild_loop E cb tot existing idx [] r = Some r"
| "rebuild_loop E cb tot existing idx (p # rest) r =
     (if loop_cancel E idx then Some (r\<lparr>run_cancelled := True\<rparr>)
      else case loop_body E cb tot existing idx p r of
             None \<Rightarrow> None
           | Some r' \<Rightarrow> rebuild_loop E cb tot existing (idx + 1) rest r')"

text \<open>
  The result dictionary. The early return for a missing base path has no \<^verbatim>\<open>updated\<close> and no
  \<^verbatim>\<open>processed\<close> key.
\<close>

record report =
  rep_documents :: nat
  rep_total_scanned :: nat
  rep_updated :: "nat option"
  rep_processed :: "nat option"
  rep_skipped :: nat
  rep_errors :: nat
  rep_cancelled :: bool

text \<open>
  \<^verbatim>\<open>stale_paths = set(existing.keys()) - seen_paths\<close>, enumerated in table order (the order
  in which Python walks the set does not change the resulting tables).
\<close>

definition stale_paths :: "file_row list \<Rightarrow> path list \<Rightarrow> path list" where
  "stale_paths rows seen = filter (\<lambda>p. p \<notin> set seen) (remdups (map f_path rows))"

definition delete_stale :: "path list \<Rightarrow> indexer \<Rightarrow> indexer" where
  "delete_stale stale s = fold (\<lambda>p s. delete_file s p) stale s"

text \<open>
  \<^verbatim>\<open>rebuild_index(on_progress, cancel_event)\<close>: the report, the indexer afterwards and the
  calls made to the progress callback (\<open>cb\<close> says whether one was given). Logging
  (\<^verbatim>\<open>log_event\<close>) is not modelled.
\<close>

definition rebuild_index :: "env \<Rightarrow> bool \<Rightarrow> indexer \<Rightarrow> (report \<times> indexer \<times> (nat \<times> nat \<times> string) list) option" where
  "rebuild_index E cb s =
     (let base = get_base_path E s
      in if \<not> path_exists E base then
           Some (\<lparr> rep_documents = 0, rep_total_scanned = 0, rep_updated = None,
                    rep_processed = None, rep_skipped = 0, rep_errors = 0,
                    rep_cancelled = False \<rparr>, s, [])
         else
           (case collect_candidates E (s\<lparr>last_skipped := [], last_errors := []\<rparr>) base of
              (candidates, s1) \<Rightarrow>
                (let tot = length candidates;
                     existing = snapshot (files s1)
                 in case rebuild_loop E cb tot existing 1 candidates
                           \<lparr> run_ix = s1, run_updated = 0, run_processed = 0, run_seen = [],
                             run_cancelled = False, run_progress = [] \<rparr> of
                      None \<Rightarrow> None
                    | Some r \<Rightarrow>
                        (let s2 = delete_stale (stale_paths (files s1) (run_seen r)) (run_ix r);
                             documents = count_files s2;
                             s3 = s2\<lparr>meta_last_indexed := Some (utcnow E),
                                     meta_document_count := Some documents\<rparr>
                         in Some (\<lparr> rep_documents = documents, rep_total_scanned = tot,
                                     rep_updated = Some (run_updated r),
                                     rep_processed = Some (run_processed r),
                                     rep_skipped = length (last_skipped s3),
                                     rep_errors = length (last_errors s3),
                                     rep_cancelled = run_cancelled r \<rparr>, s3, run_progress r)))))"

text \<open>
  The candidates of a run and the prefix of them the loop reaches before the cancel flag is
  seen set.
\<close>

definition candidates_of :: "env \<Rightarrow> indexer \<Rightarrow> path list" where
  "candidates_of E s =
     fst (collect_candidates E (s\<lparr>last_skipped := [], last_errors := []\<rparr>) (get_base_path E s))"

text \<open>The indexer as the crawl of a run leaves it: diagnostics reset, skips recorded.\<close>

definition crawled :: "env \<Rightarrow> indexer \<Rightarrow> indexer" where
  "crawled E s =
     snd (collect_candidates E (s\<lparr>last_skipped := [], last_errors := []\<rparr>) (get_base_path E s))"



fun processed_prefix :: "(nat \<Rightarrow> bool) \<Rightarrow> nat \<Rightarrow> path list \<Rightarrow> path list" where
  "processed_prefix cancel idx [] = []"
| "processed_prefix cancel idx (p # rest) =
     (if cancel idx then [] else p # processed_prefix cancel (idx + 1) rest)"


definition stat_values :: "env \<Rightarrow> path \<Rightarrow> (real \<times> int) option" where
  "stat_values E p = (case stat E p of Inl _ \<Rightarrow> None | Inr st \<Rightarrow> Some (st_mtime st, st_size st))"

section \<open>difflib.SequenceMatcher\<close>

text \<open>
  \<^verbatim>\<open>SequenceMatcher(None, a, b).ratio()\<close> of the Python standard library, as its documentation
  and source define it. With no junk function, the elements left out of the index of \<open>b\<close>
  are the popular ones: when \<open>b\<close> has at least 200 elements, those that occur more than
  \<open>len(b) // 100 + 1\<close> times.
\<close>

definition popular :: "string \<Rightarrow> char \<Rightarrow> bool" where
  "popular b c = (200 \<le> length b \<and> length b div 100 + 1 < count_list b c)"

text \<open>The length of the longest common prefix of two lists whose elements are not excluded.\<close>

fun common_run :: "(char \<Rightarrow> bool) \<Rightarrow> string \<Rightarrow> string \<Rightarrow> nat" where
  "common_run P (x # xs) (y # ys) = (if x = y \<and> \<not> P y then Suc (common_run P xs ys) else 0)"
| "common_run P [] ys = 0"
| "common_run P (x # xs) [] = 0"

definition run_at :: "string \<Rightarrow> string \<Rightarrow> nat \<Rightarrow> nat \<Rightarrow> nat \<Rightarrow> nat \<Rightarrow> nat" where
  "run_at a b i j ahi bhi = common_run (popular b) (drop i (take ahi a)) (drop j (take bhi b))"

text \<open>
  The first part of \<^verbatim>\<open>find_longest_match(alo, ahi, blo, bhi)\<close>: the longest block of equal,
  indexed elements \<open>a[i:i+k] == b[j:j+k]\<close> inside the ranges; of the longest blocks the one
  that starts earliest in \<open>a\<close>, and of those the one that starts earliest in \<open>b\<close>;
  \<open>(alo, blo, 0)\<close> when there is none.
\<close>

definition scan_best :: "string \<Rightarrow> string \<Rightarrow> nat \<Rightarrow> nat \<Rightarrow> nat \<Rightarrow> nat \<Rightarrow> nat \<times> nat \<times> nat" where
  "scan_best a b alo ahi blo bhi =
     fold (\<lambda>(i, j) (bi, bj, bk).
             if bk < run_at a b i j ahi bhi then (i, j, run_at a b i j ahi bhi) else (bi, bj, bk))
       (List.product [alo..<ahi] [blo..<bhi]) (alo, blo, 0)"

text \<open>
  \<^verbatim>\<open>find_longest_match\<close>: the block found is then extended to the left and to the right
  while the neighbouring elements are equal (the two \<^verbatim>\<open>while\<close> loops for non-junk elements;
  no element is junk, so the two loops for junk elements do nothing).
\<close>

definition find_longest_match :: "string \<Rightarrow> string \<Rightarrow> nat \<Rightarrow> nat \<Rightarrow> nat \<Rightarrow> nat \<Rightarrow> nat \<times> nat \<times> nat" where
  "find_longest_match a b alo ahi blo bhi =
     (case scan_best a b alo ahi blo bhi of
        (i, j, k) \<Rightarrow>
          (let el = common_run (\<lambda>c. False) (rev (drop alo (take i a))) (rev (drop blo (take j b)));
               i' = i - el; j' = j - el; k' = k + el;
               er = common_run (\<lambda>c. False) (drop (i' + k') (take ahi a)) (drop (j' + k') (take bhi b))
           in (i', j', k' + er)))"

lemma common_run_le: "common_run P xs ys \<le> length xs \<and> common_run P xs ys \<le> length ys"
  by (induction P xs ys rule: common_run.induct) auto

lemma length_drop_take_le: "length (drop m (take n xs)) \<le> n - m"
  by simp

lemma common_run_range:
  "common_run P (drop m (take n xs)) (drop m' (take n' ys)) \<le> n - m"
  "common_run P (drop m (take n xs)) (drop m' (take n' ys)) \<le> n' - m'"
  using common_run_le[of P "drop m (take n xs)" "drop m' (take n' ys)"]
    length_drop_take_le[of m n xs] length_drop_take_le[of m' n' ys]
  by linarith+

lemma common_run_range_rev:
  "common_run P (rev (drop m (take n xs))) (rev (drop m' (take n' ys))) \<le> n - m"
  "common_run P (rev (drop m (take n xs))) (rev (drop m' (take n' ys))) \<le> n' - m'"
  using common_run_le[of P "rev (drop m (take n xs))" "rev (drop m' (take n' ys))"]
    length_drop_take_le[of m n xs] length_drop_take_le[of m' n' ys]
  by (simp_all only: length_rev) linarith+

lemma run_at_le: "i + run_at a b i j ahi bhi \<le> max i ahi \<and> j + run_at a b i j ahi bhi \<le> max j bhi"
  using common_run_le[of "popular b" "drop i (take ahi a)" "drop j (take bhi b)"]
  by (auto simp add: run_at_def)

lemma scan_best_fold_bounds:
  "(bk > 0 \<longrightarrow> alo \<le> bi \<and> bi + bk \<le> ahi \<and> blo \<le> bj \<and> bj + bk \<le> bhi) \<Longrightarrow>
   \<forall>(i, j) \<in> set ps. alo \<le> i \<and> i < ahi \<and> blo \<le> j \<and> j < bhi \<Longrightarrow>
   fold (\<lambda>(i, j) (bi, bj, bk).
             if bk < run_at a b i j ahi bhi then (i, j, run_at a b i j ahi bhi) else (bi, bj, bk))
       ps (bi, bj, bk) = (i', j', k') \<Longrightarrow>
   k' > 0 \<longrightarrow> alo \<le> i' \<and> i' + k' \<le> ahi \<and> blo \<le> j' \<and> j' + k' \<le> bhi"
proof (induction ps arbitrary: bi bj bk)
  case Nil
  then show ?case by simp
next
  case (Cons p ps)
  obtain i j where p: "p = (i, j)" by (cases p)
  have ij: "alo \<le> i" "i < ahi" "blo \<le> j" "j < bhi" using Cons.prems(2) p by auto
  have r: "i + run_at a b i j ahi bhi \<le> ahi" "j + run_at a b i j ahi bhi \<le> bhi"
    using run_at_le[of i a b j ahi bhi] ij by (simp_all add: max_def)
  have rest: "\<forall>(i, j) \<in> set ps. alo \<le> i \<and> i < ahi \<and> blo \<le> j \<and> j < bhi"
    using Cons.prems(2) by simp
  show ?case
  proof (cases "bk < run_at a b i j ahi bhi")
    case True
    have f: "fold (\<lambda>(i, j) (bi, bj, bk).
             if bk < run_at a b i j ahi bhi then (i, j, run_at a b i j ahi bhi) else (bi, bj, bk))
       ps (i, j, run_at a b i j ahi bhi) = (i', j', k')"
      using Cons.prems(3) p True by simp
    have inv: "run_at a b i j ahi bhi > 0 \<longrightarrow> alo \<le> i \<and> i + run_at a b i j ahi bhi \<le> ahi \<and> blo \<le> j \<and> j + run_at a b i j ahi bhi \<le> bhi"
      using ij r by simp
    show ?thesis by (rule Cons.IH[OF inv rest f])
  next
    case False
    have f: "fold (\<lambda>(i, j) (bi, bj, bk).
             if bk < run_at a b i j ahi bhi then (i, j, run_at a b i j ahi bhi) else (bi, bj, bk))
       ps (bi, bj, bk) = (i', j', k')"
      using Cons.prems(3) p False by simp
    show ?thesis by (rule Cons.IH[OF Cons.prems(1) rest f])
  qed
qed

lemma scan_best_bounds:
  assumes "scan_best a b alo ahi blo bhi = (i, j, k)"
  shows "k > 0 \<longrightarrow> alo \<le> i \<and> i + k \<le> ahi \<and> blo \<le> j \<and> j + k \<le> bhi"
    and "k = 0 \<longrightarrow> i = alo \<and> j = blo"
proof -
  have pre1: "(0::nat) > 0 \<longrightarrow> alo \<le> alo \<and> alo + 0 \<le> ahi \<and> blo \<le> blo \<and> blo + 0 \<le> bhi" by simp
  have pre2: "\<forall>(i, j) \<in> set (List.product [alo..<ahi] [blo..<bhi]). alo \<le> i \<and> i < ahi \<and> blo \<le> j \<and> j < bhi"
    by simp
  have pre3: "fold (\<lambda>(i, j) (bi, bj, bk).
             if bk < run_at a b i j ahi bhi then (i, j, run_at a b i j ahi bhi) else (bi, bj, bk))
       (List.product [alo..<ahi] [blo..<bhi]) (alo, blo, 0) = (i, j, k)"
    using assms unfolding scan_best_def .
  show "k > 0 \<longrightarrow> alo \<le> i \<and> i + k \<le> ahi \<and> blo \<le> j \<and> j + k \<le> bhi"
    using pre1 pre2 pre3 by (rule scan_best_fold_bounds)
  have z: "\<And>ps bi bj bk i' j'. fold (\<lambda>(i, j) (bi, bj, bk).
             if bk < run_at a b i j ahi bhi then (i, j, run_at a b i j ahi bhi) else (bi, bj, bk))
       ps (bi, bj, bk) = (i', j', 0) \<Longrightarrow> bk = 0 \<and> i' = bi \<and> j' = bj"
  proof -
    fix ps bi bj bk i' j'
    show "fold (\<lambda>(i, j) (bi, bj, bk).
             if bk < run_at a b i j ahi bhi then (i, j, run_at a b i j ahi bhi) else (bi, bj, bk))
       ps (bi, bj, bk) = (i', j', 0) \<Longrightarrow> bk = 0 \<and> i' = bi \<and> j' = bj"
    proof (induction ps arbitrary: bi bj bk)
      case Nil
      then show ?case by simp
    next
      case (Cons p ps)
      obtain x y where p: "p = (x, y)" by (cases p)
      show ?case
      proof (cases "bk < run_at a b x y ahi bhi")
        case True
        then have "run_at a b x y ahi bhi = 0" using Cons.IH[of x y "run_at a b x y ahi bhi"] Cons.prems p by simp
        then show ?thesis using True by simp
      next
        case False
        then show ?thesis using Cons.IH[of bi bj bk] Cons.prems p by simp
      qed
    qed
  qed
  show "k = 0 \<longrightarrow> i = alo \<and> j = blo"
  proof
    assume "k = 0"
    then have "fold (\<lambda>(i, j) (bi, bj, bk).
             if bk < run_at a b i j ahi bhi then (i, j, run_at a b i j ahi bhi) else (bi, bj, bk))
       (List.product [alo..<ahi] [blo..<bhi]) (alo, blo, 0) = (i, j, 0)"
      using pre3 by simp
    then show "i = alo \<and> j = blo" using z by blast
  qed
qed

lemma find_longest_match_bounds:
  assumes "find_longest_match a b alo ahi blo bhi = (i, j, k)" and "k > 0"
  shows "alo \<le> i \<and> i + k \<le> ahi \<and> blo \<le> j \<and> j + k \<le> bhi"
proof -
  obtain i0 j0 k0 where sb: "scan_best a b alo ahi blo bhi = (i0, j0, k0)"
    by (cases "scan_best a b alo ahi blo bhi") auto
  define el where "el = common_run (\<lambda>c. False) (rev (drop alo (take i0 a))) (rev (drop blo (take j0 b)))"
  define er where "er = common_run (\<lambda>c. False) (drop (i0 - el + (k0 + el)) (take ahi a)) (drop (j0 - el + (k0 + el)) (take bhi b))"
  have "find_longest_match a b alo ahi blo bhi = (i0 - el, j0 - el, k0 + el + er)"
    by (simp add: find_longest_match_def sb Let_def el_def er_def)
  then have res: "i = i0 - el" "j = j0 - el" "k = k0 + el + er"
    using assms(1) by simp_all
  have b0: "alo \<le> i0" "blo \<le> j0"
    using scan_best_bounds[OF sb] by (cases "k0 = 0"; simp)+
  have el_le: "el \<le> i0 - alo" "el \<le> j0 - blo"
    unfolding el_def by (rule common_run_range_rev)+
  have er_le: "er \<le> ahi - (i0 - el + (k0 + el))" "er \<le> bhi - (j0 - el + (k0 + el))"
    unfolding er_def by (rule common_run_range)+
  have lo: "alo \<le> i" "blo \<le> j" using res el_le b0 by simp_all
  have mid: "i0 - el + (k0 + el) = i0 + k0" "j0 - el + (k0 + el) = j0 + k0"
    using el_le b0 by simp_all
  show ?thesis
  proof (cases "er = 0")
    case False
    then have "er \<le> ahi - (i0 + k0)" "er \<le> bhi - (j0 + k0)" "0 < ahi - (i0 + k0)" "0 < bhi - (j0 + k0)"
      using er_le mid by simp_all
    then show ?thesis using lo res mid el_le b0 by linarith
  next
    case True
    show ?thesis
    proof (cases "k0 = 0")
      case k0: True
      then have "i0 = alo" "j0 = blo" using scan_best_bounds(2)[OF sb] by simp_all
      then have "el = 0" using el_le by simp
      then show ?thesis using assms(2) res True k0 by simp
    next
      case False
      then have "i0 + k0 \<le> ahi" "j0 + k0 \<le> bhi" using scan_best_bounds(1)[OF sb] by simp_all
      then show ?thesis using lo res True el_le b0 by simp
    qed
  qed
qed



text \<open>
  The total size of the matching blocks (\<^verbatim>\<open>get_matching_blocks\<close>): the longest match of the
  range, then recursively the matches to its left and to its right. The recursion ends
  because a match of positive size lies inside its range.
\<close>

function matching_total :: "string \<Rightarrow> string \<Rightarrow> nat \<Rightarrow> nat \<Rightarrow> nat \<Rightarrow> nat \<Rightarrow> nat" where
  "matching_total a b alo ahi blo bhi =
     (case find_longest_match a b alo ahi blo bhi of
        (i, j, k) \<Rightarrow>
          if k = 0 then 0
          else k + (if alo < i \<and> blo < j then matching_total a b alo i blo j else 0)
                 + (if i + k < ahi \<and> j + k < bhi then matching_total a b (i + k) ahi (j + k) bhi else 0))"
  by pat_completeness auto
termination
proof (relation "measure (\<lambda>(a, b, alo, ahi, blo, bhi). (ahi - alo) + (bhi - blo))")
  show "wf (measure (\<lambda>(a, b, alo, ahi, blo, bhi). (ahi - alo) + (bhi - blo)))" by simp
next
  fix a b :: string and alo ahi blo bhi i :: nat and y :: "nat \<times> nat" and j k :: nat
  assume "(i, y) = find_longest_match a b alo ahi blo bhi" "(j, k) = y" "k \<noteq> 0" "alo < i \<and> blo < j"
  then have f: "find_longest_match a b alo ahi blo bhi = (i, j, k)" "k > 0" by auto
  have "(i - alo) + (j - blo) < (ahi - alo) + (bhi - blo)"
    using find_longest_match_bounds[OF f] f(2) by linarith
  then show "((a, b, alo, i, blo, j), a, b, alo, ahi, blo, bhi) \<in> measure (\<lambda>(a, b, alo, ahi, blo, bhi). (ahi - alo) + (bhi - blo))"
    by simp
next
  fix a b :: string and alo ahi blo bhi i :: nat and y :: "nat \<times> nat" and j k :: nat
  assume "(i, y) = find_longest_match a b alo ahi blo bhi" "(j, k) = y" "k \<noteq> 0" "i + k < ahi \<and> j + k < bhi"
  then have f: "find_longest_match a b alo ahi blo bhi = (i, j, k)" "k > 0" by auto
  have "(ahi - (i + k)) + (bhi - (j + k)) < (ahi - alo) + (bhi - blo)"
    using find_longest_match_bounds[OF f] f(2) by linarith
  then show "((a, b, i + k, ahi, j + k, bhi), a, b, alo, ahi, blo, bhi) \<in> measure (\<lambda>(a, b, alo, ahi, blo, bhi). (ahi - alo) + (bhi - blo))"
    by simp
qed

text \<open>\<^verbatim>\<open>ratio()\<close>: \<open>2.0 * matches / (len(a) + len(b))\<close>, and 1.0 for two empty sequences.\<close>

definition ratio :: "string \<Rightarrow> string \<Rightarrow> real" where
  "ratio a b =
     (if length a + length b = 0 then 1
      else 2 * real (matching_total a b 0 (length a) 0 (length b)) / real (length a + length b))"


section \<open>modules/data\_indexer.py: search\<close>

text \<open>\<^verbatim>\<open>s.startswith(t)\<close> and \<^verbatim>\<open>t in s\<close>.\<close>

fun startswith :: "string \<Rightarrow> string \<Rightarrow> bool" where
  "startswith s [] = True"
| "startswith [] (c # t) = False"
| "startswith (d # s) (c # t) = (d = c \<and> startswith s t)"

fun contains :: "string \<Rightarrow> string \<Rightarrow> bool" where
  "contains [] t = (t = [])"
| "contains (d # s) t = (startswith (d # s) t \<or> contains s t)"

text \<open>
  \<^verbatim>\<open>str.strip()\<close>. The characters it removes at both ends are those \<^verbatim>\<open>str.isspace\<close> accepts,
  here in their UTF-8 encoding: U+0009 to U+000D, U+001C to U+0020, U+0085, U+00A0, U+1680,
  U+2000 to U+200A, U+2028, U+2029, U+202F, U+205F and U+3000.
\<close>

definition WHITESPACE :: "string list" where
  "WHITESPACE =
     [[CHR 0x09], [CHR 0x0A], [CHR 0x0B], [CHR 0x0C], [CHR 0x0D], [CHR 0x1C], [CHR 0x1D],
      [CHR 0x1E], [CHR 0x1F], [CHR 0x20], [CHR 0xC2, CHR 0x85], [CHR 0xC2, CHR 0xA0],
      [CHR 0xE1, CHR 0x9A, CHR 0x80], [CHR 0xE2, CHR 0x80, CHR 0x80],
      [CHR 0xE2, CHR 0x80, CHR 0x81], [CHR 0xE2, CHR 0x80, CHR 0x82],
      [CHR 0xE2, CHR 0x80, CHR 0x83], [CHR 0xE2, CHR 0x80, CHR 0x84],
      [CHR 0xE2, CHR 0x80, CHR 0x85], [CHR 0xE2, CHR 0x80, CHR 0x86],
      [CHR 0xE2, CHR 0x80, CHR 0x87], [CHR 0xE2, CHR 0x80, CHR 0x88],
      [CHR 0xE2, CHR 0x80, CHR 0x89], [CHR 0xE2, CHR 0x80, CHR 0x8A],
      [CHR 0xE2, CHR 0x80, CHR 0xA8], [CHR 0xE2, CHR 0x80, CHR 0xA9],
      [CHR 0xE2, CHR 0x80, CHR 0xAF], [CHR 0xE2, CHR 0x81, CHR 0x9F],
      [CHR 0xE3, CHR 0x80, CHR 0x80]]"

lemma startswith_nonempty: "startswith s w \<Longrightarrow> w \<noteq> [] \<Longrightarrow> s \<noteq> []"
  by (cases s; cases w) simp_all

function lstrip_of :: "string list \<Rightarrow> string \<Rightarrow> string" where
  "lstrip_of ws s =
     (case find (\<lambda>w. w \<noteq> [] \<and> startswith s w) ws of
        None \<Rightarrow> s
      | Some w \<Rightarrow> lstrip_of ws (drop (length w) s))"
  by pat_completeness auto
termination
proof (relation "measure (\<lambda>(ws, s). length s)")
  show "wf (measure (\<lambda>(ws, s). length s))" by simp
next
  fix ws :: "string list" and s w :: string
  assume "find (\<lambda>w. w \<noteq> [] \<and> startswith s w) ws = Some w"
  then have w: "w \<noteq> []" "startswith s w" by (auto simp add: find_Some_iff)
  then have "s \<noteq> []" using startswith_nonempty by blast
  then show "((ws, drop (length w) s), (ws, s)) \<in> measure (\<lambda>(ws, s). length s)"
    using w(1) by simp
qed

definition strip :: "string \<Rightarrow> string" where
  "strip s = rev (lstrip_of (map rev WHITESPACE) (rev (lstrip_of WHITESPACE s)))"

text \<open>
  \<^verbatim>\<open>re.findall(r"[\\w]+", lower_query)\<close>. In the raw string the class is written with two
  backslashes, so it holds the backslash and the letter \<^verbatim>\<open>w\<close>: the tokens are the maximal
  runs of these two characters.
\<close>

definition in_token_class :: "char \<Rightarrow> bool" where
  "in_token_class c = (c = CHR 0x5C \<or> c = CHR ''w'')"

fun findall_runs :: "string \<Rightarrow> string \<Rightarrow> string list" where
  "findall_runs cur [] = (if cur = [] then [] else [cur])"
| "findall_runs cur (c # cs) =
     (if in_token_class c then findall_runs (cur @ [c]) cs
      else (if cur = [] then [] else [cur]) @ findall_runs [] cs)"

definition query_tokens :: "string \<Rightarrow> string list" where
  "query_tokens lower_query = filter (\<lambda>tok. tok \<noteq> []) (findall_runs [] lower_query)"

text \<open>
  A Python dictionary as an association list in insertion order: assignment replaces the
  value of a present key in place and appends a new key.
\<close>

fun dict_get :: "('k \<times> 'v) list \<Rightarrow> 'k \<Rightarrow> 'v option" where
  "dict_get [] k = None"
| "dict_get ((k', v) # kvs) k = (if k' = k then Some v else dict_get kvs k)"

fun dict_set :: "('k \<times> 'v) list \<Rightarrow> 'k \<Rightarrow> 'v \<Rightarrow> ('k \<times> 'v) list" where
  "dict_set [] k v = [(k, v)]"
| "dict_set ((k', v') # kvs) k v = (if k' = k then (k, v) # kvs else (k', v') # dict_set kvs k v)"

text \<open>The score of the file name against the query, before the bonus for tokens.\<close>

definition match_score :: "string \<Rightarrow> string \<Rightarrow> real" where
  "match_score lower_query filename =
     (let score = (if filename = lower_query then 150
                   else if startswith filename lower_query then 110
                   else if contains filename lower_query then 90
                   else 0)
      in if score = 0 \<and> 3 \<le> length lower_query then
           (if 6 / 10 \<le> ratio lower_query filename then score + ratio lower_query filename * 70
            else score)
         else score)"

definition token_bonus :: "string list \<Rightarrow> string \<Rightarrow> real" where
  "token_bonus tokens filename =
     fold (\<lambda>tok score. if tok \<noteq> [] \<and> contains filename tok then score + 15 else score) tokens 0"

text \<open>The loop that fills \<^verbatim>\<open>name_scores\<close> (a \<^verbatim>\<open>defaultdict(float)\<close>).\<close>

definition name_scores_step ::
  "env \<Rightarrow> string \<Rightarrow> string list \<Rightarrow> file_row \<Rightarrow> (path \<times> real) list \<Rightarrow> (path \<times> real) list"
where
  "name_scores_step E lower_query tokens row scores =
     (let p = f_path row;
          filename = lower (path_name p);
          score = match_score lower_query filename + token_bonus tokens filename
      in if 0 < score then
           (let age_days = max 0 ((time_now E - f_mtime row) / 86400);
                recency_bonus = max 5 (35 - age_days);
                depth_penalty = max 0 (real (length p) * (15 / 10));
                old = (case dict_get scores p of None \<Rightarrow> 0 | Some x \<Rightarrow> x)
            in dict_set scores p (old + (score + recency_bonus - depth_penalty)))
         else scores)"

definition name_scores :: "env \<Rightarrow> string \<Rightarrow> string list \<Rightarrow> file_row list \<Rightarrow> (path \<times> real) list" where
  "name_scores E lower_query tokens rows = fold (name_scores_step E lower_query tokens) rows []"

text \<open>
  SQLite's \<^verbatim>\<open>LIKE\<close>: \<^verbatim>\<open>%\<close> matches any sequence, \<^verbatim>\<open>_\<close> any one character, other characters
  match without regard to ASCII case.
\<close>

fun like_match :: "string \<Rightarrow> string \<Rightarrow> bool" where
  "like_match [] s = (s = [])"
| "like_match (c # pat) [] = (c = CHR ''%'' \<and> like_match pat [])"
| "like_match (c # pat) (d # s) =
     (if c = CHR ''%'' then like_match pat (d # s) \<or> like_match (c # pat) s
      else if c = CHR ''_'' then like_match pat s
      else lower_char c = lower_char d \<and> like_match pat s)"

text \<open>
  The two content queries. Both join \<open>file_content\<close> with \<open>files\<close> on the rowid and keep at
  most \<open>2 * limit\<close> rows: the FTS5 backend those FTS5 reports for the \<^verbatim>\<open>MATCH\<close> query,
  the fallback backend those whose lowered content is \<^verbatim>\<open>LIKE %query%\<close>, with the first 400
  characters as preview. The result is \<open>None\<close> when SQLite refuses the statement: the
  exception leaves \<^verbatim>\<open>search\<close>.
\<close>

definition join_files :: "file_row list \<Rightarrow> nat \<Rightarrow> path list" where
  "join_files rows rid = map f_path (filter (\<lambda>r. f_id r = rid) rows)"

definition fts_rows ::
  "indexer \<Rightarrow> (nat \<times> string option \<times> real option) list \<Rightarrow> nat \<Rightarrow> (path \<times> string option \<times> real option) list"
where
  "fts_rows s hits cap =
     take (2 * cap)
       (concat (map (\<lambda>(rid, preview, rank). map (\<lambda>p. (p, preview, rank)) (join_files (files s) rid))
                  hits))"

definition like_rows :: "indexer \<Rightarrow> string \<Rightarrow> nat \<Rightarrow> (path \<times> string) list" where
  "like_rows s lower_query cap =
     take (2 * cap)
       (concat (map (\<lambda>c. map (\<lambda>p. (p, take 400 (c_content c))) (join_files (files s) (c_rowid c)))
                  (filter (\<lambda>c. like_match (''%'' @ lower_query @ ''%'') (lower (c_content c)))
                     (file_content s))))"

definition content_scores ::
  "env \<Rightarrow> indexer \<Rightarrow> string \<Rightarrow> string list \<Rightarrow> nat \<Rightarrow> (path \<times> real \<times> string option) list option"
where
  "content_scores E s lower_query tokens cap =
     (if tokens = [] then Some []
      else if fts_available s then
        (let match_query = join_with '' OR '' (map (\<lambda>tok. tok @ ''*'') tokens)
         in case fts5_match E (map (\<lambda>c. (c_rowid c, c_content c)) (file_content s)) match_query
                   (2 * cap) of
              Inl err \<Rightarrow> None
            | Inr hits \<Rightarrow>
                Some (fold (\<lambda>(p, preview, rank) scores.
                              dict_set scores p
                                (max 0 (120 - (case rank of None \<Rightarrow> 0 | Some x \<Rightarrow> x)), preview))
                        (fts_rows s hits cap) []))
      else if like_query_raises E (''%'' @ lower_query @ ''%'') (2 * cap) then None
      else
        Some (fold (\<lambda>(p, preview) scores. dict_set scores p (60, Some preview))
                (like_rows s lower_query cap) []))"

text \<open>
  A result. \<open>e_modified\<close> is the mtime the formatted fields \<^verbatim>\<open>modified\<close> and
  \<^verbatim>\<open>modified_human\<close> are printed from, \<open>e_size_bytes\<close> the size \<^verbatim>\<open>size_human\<close> is printed
  from.
\<close>

record entry =
  e_path :: string
  e_name :: string
  e_score :: real
  e_snippet :: string
  e_modified :: real
  e_size_bytes :: int

definition initial_entry :: "file_row \<Rightarrow> entry" where
  "initial_entry row =
     \<lparr> e_path = path_str (f_path row), e_name = path_name (f_path row), e_score = 0,
       e_snippet = [], e_modified = f_mtime row, e_size_bytes = f_size row \<rparr>"

definition merge_name :: "string \<Rightarrow> path \<times> real \<Rightarrow> (path \<times> entry) list \<Rightarrow> (path \<times> entry) list" where
  "merge_name query = (\<lambda>(p, score) merged.
     case dict_get merged p of
       None \<Rightarrow> merged
     | Some e \<Rightarrow>
         dict_set merged p
           (e\<lparr>e_score := e_score e + score,
              e_snippet := (if e_snippet e = []
                            then ''Filename match for '' @ [CHR 0x27] @ query @ [CHR 0x27]
                            else e_snippet e)\<rparr>))"

definition merge_content :: "path \<times> real \<times> string option \<Rightarrow> (path \<times> entry) list \<Rightarrow> (path \<times> entry) list" where
  "merge_content = (\<lambda>(p, score, snippet) merged.
     case dict_get merged p of
       None \<Rightarrow> merged
     | Some e \<Rightarrow>
         (let snippet_text = strip (case snippet of None \<Rightarrow> [] | Some t \<Rightarrow> t)
          in dict_set merged p
               (e\<lparr>e_score := e_score e + score,
                  e_snippet := (if snippet_text \<noteq> [] then snippet_text
                                else if e_snippet e = [] then ''Content match''
                                else e_snippet e)\<rparr>)))"

text \<open>
  The \<^verbatim>\<open>merged\<close> dictionary: an entry of score 0 for every row of \<open>files\<close>, then both scores.
  Building an entry formats the mtime with \<^verbatim>\<open>datetime.fromtimestamp\<close>, which raises for a
  time it cannot represent: the result \<open>None\<close>.
\<close>

definition initial_entries :: "env \<Rightarrow> file_row list \<Rightarrow> (path \<times> entry) list option" where
  "initial_entries E rows =
     (if list_all (\<lambda>row. fromtimestamp_ok E (f_mtime row)) rows
      then Some (fold (\<lambda>row merged. dict_set merged (f_path row) (initial_entry row)) rows [])
      else None)"

definition merged_entries ::
  "string \<Rightarrow> (path \<times> real) list \<Rightarrow> (path \<times> real \<times> string option) list \<Rightarrow> (path \<times> entry) list \<Rightarrow>
   (path \<times> entry) list"
where
  "merged_entries query names contents merged0 =
     fold merge_content contents (fold (merge_name query) names merged0)"


text \<open>The sort key \<^verbatim>\<open>(-float(item["score"]), item["name"], item["path"])\<close>.\<close>

definition rank_key :: "entry \<Rightarrow> real \<times> string \<times> string" where
  "rank_key e = (- e_score e, e_name e, e_path e)"

text \<open>
  \<^verbatim>\<open>search(query, limit)\<close>: \<^verbatim>\<open>sorted\<close> is a stable sort, as \<open>sort_key\<close> is; strings are
  compared character by character. The result is \<open>None\<close> when the call raises.
\<close>

definition search :: "env \<Rightarrow> indexer \<Rightarrow> string \<Rightarrow> int \<Rightarrow> entry list option" where
  "search E s query0 limit0 =
     (let query = strip query0
      in if query = [] then Some []
         else
           (let cap = nat (max 1 limit0);
                lower_query = lower query;
                tokens = query_tokens lower_query;
                names = name_scores E lower_query tokens (files s)
            in case content_scores E s lower_query tokens cap of
                 None \<Rightarrow> None
               | Some contents \<Rightarrow>
                   (case initial_entries E (files s) of
                      None \<Rightarrow> None
                    | Some merged0 \<Rightarrow>
                        Some (take cap (sort_key rank_key
                                (map snd (merged_entries query names contents merged0)))))))"

text \<open>The fields of the indexer that neither the crawl nor the rebuild loop writes.\<close>

definition same_config :: "indexer \<Rightarrow> indexer \<Rightarrow> bool" where
  "same_config s s' =
     (base_path s' = base_path s \<and> allowed_extensions s' = allowed_extensions s \<and>
      allowed_roots s' = allowed_roots s \<and> excluded_paths s' = excluded_paths s \<and>
      max_file_size_mb s' = max_file_size_mb s \<and>
      max_file_size_bytes s' = max_file_size_bytes s \<and>
      fts_available s' = fts_available s \<and> meta_base_path s' = meta_base_path s)"

section \<open>Example environments\<close>

text \<open>
  A Linux machine whose paths are already canonical, with no file and no decoder, and a
  full-text engine that refuses a \<^verbatim>\<open>MATCH\<close> expression with a backslash and finds no hit
  otherwise; the witnesses and counterexamples below change the fields they need.
\<close>

definition linux_env :: env where
  "linux_env =
     \<lparr> clean = (\<lambda>p. p), os_name_nt = False, platform_darwin = False,
       userprofile = [''%USERPROFILE%''], home = [''/'', ''home'', ''u''],
       cwd = Some [''/'', ''home'', ''u''], fts5_supported = True,
       path_exists = (\<lambda>p. True), dir_tree = (\<lambda>p. FsDir [] FsNil),
       stat = (\<lambda>p. Inl ''No such file or directory''),
       read_text = (\<lambda>p. Inl ''No such file or directory''),
       fitz_available = False, pdf_pages = (\<lambda>p. Inl ''unavailable''),
       docx_available = False, docx_paragraphs = (\<lambda>p. Inl ''unavailable''),
       ipynb_markdown = (\<lambda>p. Inl ''unavailable''),
       fmt_1f = (\<lambda>x. if x = Float 1 then ''1.0'' else if x = Float 8 then ''8.0'' else ''?''),
       utcnow = ''2024-01-01T00:00:00'', time_now = 0,
       crawl_cancel = (\<lambda>k. False), loop_cancel = (\<lambda>i. False),
       fts5_match = (\<lambda>rows q n. if CHR 0x5C \<in> set q then Inl ''fts5: syntax error'' else Inr []),
       like_query_raises = (\<lambda>pat n. False),
       fromtimestamp_ok = (\<lambda>t. 0 \<le> t \<and> t < 253402300800) \<rparr>"

definition empty_db :: database where
  "empty_db = \<lparr> db_files = [], db_file_content = [], db_base_path = None,
     db_last_indexed = None, db_document_count = None \<rparr>"

definition data_dir :: path where
  "data_dir = [''/'', ''home'', ''u'', ''data'']"

text \<open>
  A new indexer over \<^verbatim>\<open>/home/u/data\<close> with an empty database, as \<^verbatim>\<open>__init__\<close> constructs it
  on that machine with no roots, no excluded paths and a ceiling of 8 MB.
\<close>

definition fresh_indexer :: indexer where
  "fresh_indexer =
     \<lparr> base_path = data_dir,
       allowed_extensions = map lower ALLOWED_EXTENSIONS,
       allowed_roots = [[''/'', ''home'', ''u'']],
       excluded_paths = [[''/'', ''bin''], [''/'', ''boot''], [''/'', ''dev''], [''/'', ''etc''],
         [''/'', ''lib''], [''/'', ''proc''], [''/'', ''root''], [''/'', ''run''], [''/'', ''sbin''],
         [''/'', ''sys''], [''/'', ''tmp''], [''/'', ''usr'']],
       max_file_size_mb = Float 8,
       max_file_size_bytes = 8388608,
       fts_available = True,
       files = [], file_content = [],
       meta_base_path = None, meta_last_indexed = None, meta_document_count = None,
       last_skipped = [], last_errors = [] \<rparr>"

text \<open>
  An indexer over \<^verbatim>\<open>/home/u/data\<close> whose store holds \<^verbatim>\<open>a.txt\<close> and \<^verbatim>\<open>b.txt\<close>, on the FTS5
  backend and on the fallback backend.
\<close>

definition two_files_fts :: indexer where
  "two_files_fts =
     fresh_indexer
       \<lparr> files := [\<lparr> f_id = 1, f_path = data_dir @ [''a.txt''], f_mtime = 10, f_size = 5,
                       f_indexed_at = ''2023-12-31T00:00:00'' \<rparr>,
                    \<lparr> f_id = 2, f_path = data_dir @ [''b.txt''], f_mtime = 11, f_size = 7,
                       f_indexed_at = ''2023-12-31T00:00:00'' \<rparr>],
         file_content := [\<lparr> c_rowid = 1, c_path = Some (data_dir @ [''a.txt'']), c_content = ''alpha'' \<rparr>,
                           \<lparr> c_rowid = 2, c_path = Some (data_dir @ [''b.txt'']), c_content = ''beta'' \<rparr>] \<rparr>"

definition two_files_plain :: indexer where
  "two_files_plain =
     two_files_fts
       \<lparr> fts_available := False,
         file_content := [\<lparr> c_rowid = 1, c_path = None, c_content = ''alpha'' \<rparr>,
                           \<lparr> c_rowid = 2, c_path = None, c_content = ''beta'' \<rparr>] \<rparr>"

text \<open>
  A file system in which \<^verbatim>\<open>/home/u/data\<close> holds \<^verbatim>\<open>a.txt\<close> (mtime 10, 5 bytes) and \<^verbatim>\<open>b.txt\<close>
  (mtime 11, 7 bytes), as the store of \<open>two_files_fts\<close> records them.
\<close>

definition two_files_env :: env where
  "two_files_env =
     linux_env
       \<lparr> dir_tree := (\<lambda>p. if p = data_dir then FsDir [''a.txt'', ''b.txt''] FsNil else FsUnreadable),
         stat := (\<lambda>p. if p = data_dir @ [''a.txt''] then Inr \<lparr> st_mtime = 10, st_size = 5 \<rparr>
                        else if p = data_dir @ [''b.txt''] then Inr \<lparr> st_mtime = 11, st_size = 7 \<rparr>
                        else Inl ''No such file or directory''),
         read_text := (\<lambda>p. if p = data_dir @ [''a.txt''] then Inr ''alpha''
                             else if p = data_dir @ [''b.txt''] then Inr ''beta''
                             else Inl ''No such file or directory'') \<rparr>"

text \<open>
  The same file system with the cancel flag seen set at the second candidate, and with the
  flag seen set at the first directory of the crawl.
\<close>

definition loop_cancel_env :: env where
  "loop_cancel_env = two_files_env\<lparr> loop_cancel := (\<lambda>i. 2 \<le> i) \<rparr>"

definition crawl_cancel_env :: env where
  "crawl_cancel_env = two_files_env\<lparr> crawl_cancel := (\<lambda>k. True) \<rparr>"

text \<open>The same file system after \<^verbatim>\<open>a.txt\<close> was rewritten (mtime 20, 6 bytes, text \<^verbatim>\<open>gamma\<close>).\<close>

definition changed_file_env :: env where
  "changed_file_env =
     two_files_env
       \<lparr> stat := (\<lambda>p. if p = data_dir @ [''a.txt''] then Inr \<lparr> st_mtime = 20, st_size = 6 \<rparr>
                        else if p = data_dir @ [''b.txt''] then Inr \<lparr> st_mtime = 11, st_size = 7 \<rparr>
                        else Inl ''No such file or directory''),
         read_text := (\<lambda>p. if p = data_dir @ [''a.txt''] then Inr ''gamma''
                             else if p = data_dir @ [''b.txt''] then Inr ''beta''
                             else Inl ''No such file or directory'') \<rparr>"


text \<open>The same file system when \<^verbatim>\<open>a.txt\<close> cannot be statted (a dangling symlink, say).\<close>

definition stat_fail_env :: env where
  "stat_fail_env =
     two_files_env
       \<lparr> stat := (\<lambda>p. if p = data_dir @ [''b.txt''] then Inr \<lparr> st_mtime = 11, st_size = 7 \<rparr>
                        else Inl ''No such file or directory'') \<rparr>"

text \<open>
  A file system in which \<^verbatim>\<open>/home/u/data\<close> holds the 2 MB file \<^verbatim>\<open>big.md\<close>; an indexer
  with a ceiling of 1 MB and an empty database; and the same indexer whose database already
  holds \<^verbatim>\<open>big.md\<close> with its current mtime and size and its text (indexed under a larger
  ceiling).
\<close>

definition big_file_env :: env where
  "big_file_env =
     linux_env
       \<lparr> dir_tree := (\<lambda>p. if p = data_dir then FsDir [''big.md''] FsNil else FsUnreadable),
         stat := (\<lambda>p. if p = data_dir @ [''big.md''] then Inr \<lparr> st_mtime = 10, st_size = 2097152 \<rparr>
                        else Inl ''No such file or directory''),
         read_text := (\<lambda>p. if p = data_dir @ [''big.md''] then Inr ''quarterly revenue report''
                             else Inl ''No such file or directory'') \<rparr>"

definition small_ceiling_indexer :: indexer where
  "small_ceiling_indexer =
     fresh_indexer\<lparr>max_file_size_mb := Float 1, max_file_size_bytes := 1048576\<rparr>"



section \<open>Theorems\<close>

subsection \<open>Path policy\<close>

lemma excluded_loop_deny:
  "\<exists>e \<in> set excluded. is_under E p e \<Longrightarrow>
   \<exists>e \<in> set excluded. is_under E p e \<and>
     excluded_loop E p roots excluded = (False, Some (''Excluded path: '' @ path_str e))"
  by (induction excluded) auto

text \<open>
  Claim C1. \<^verbatim>\<open>is_allowed\<close> canonicalises the path and tests the excluded entries before the
  allowed roots: whenever the canonical path equals or is nested under some excluded entry,
  the answer is \<open>False\<close> with the reason \<^verbatim>\<open>Excluded path: <entry>\<close> for such an entry, whatever
  the allowed roots are (so also when the path is under an allowed root).
\<close>

theorem is_allowed_excluded_wins:
  assumes "e \<in> set excluded" and "is_under E (clean E P) e"
  shows "\<exists>e' \<in> set excluded. is_under E (clean E P) e' \<and>
           is_allowed E P roots excluded =
             (False, Some (''Excluded path: '' @ path_str e'))"
  unfolding is_allowed_def using assms excluded_loop_deny by blast

theorem is_allowed_excluded_wins_witness:
  "[''/'', ''etc''] \<in> set [[''/'', ''etc'']] \<and>
   is_under linux_env (clean linux_env [''/'', ''etc'', ''passwd'']) [''/'', ''etc''] \<and>
   is_under linux_env (clean linux_env [''/'', ''etc'', ''passwd'']) [''/''] \<and>
   is_allowed linux_env [''/'', ''etc'', ''passwd''] [[''/'']] [[''/'', ''etc'']] =
     (False, Some ''Excluded path: /etc'')"
  using is_allowed_excluded_wins [of "[''/'', ''etc'']" "[[''/'', ''etc'']]" linux_env
      "[''/'', ''etc'', ''passwd'']" "[[''/'']]"]
  by (simp add: is_under_def linux_env_def is_anchor_def)

subsection \<open>Policy configuration\<close>

lemma init_fresh_indexer:
  "init linux_env data_dir empty_db None None (Float 8) = Inr fresh_indexer"
  by (simp add: init_def fresh_indexer_def normalise_paths_def linux_env_def Let_def
      default_excluded_paths_def posix_exclusions_def linux_dirs_def default_allowed_roots_def
      lower_def lower_char_def empty_db_def py_max_def DBL_MAX_def)

lemma init_two_files_env:
  "init two_files_env data_dir empty_db None None (Float 8) = Inr fresh_indexer"
  by (simp add: init_def fresh_indexer_def normalise_paths_def two_files_env_def linux_env_def
      Let_def default_excluded_paths_def posix_exclusions_def linux_dirs_def
      default_allowed_roots_def lower_def lower_char_def empty_db_def py_max_def DBL_MAX_def)

lemma init_small_ceiling:
  "init big_file_env data_dir empty_db None None (Float 1) = Inr small_ceiling_indexer"
  by (simp add: init_def small_ceiling_indexer_def fresh_indexer_def normalise_paths_def
      big_file_env_def linux_env_def Let_def default_excluded_paths_def posix_exclusions_def
      linux_dirs_def default_allowed_roots_def lower_def lower_char_def empty_db_def py_max_def
      DBL_MAX_def)

lemma update_policy_keeps_defaults:
  "set (default_excluded_paths E) \<subseteq>
     set (excluded_paths (case update_policy E s a (Some xs) m of Inl (e, s') \<Rightarrow> s' | Inr s' \<Rightarrow> s'))"
  by (auto simp add: update_policy_def Let_def split: option.splits sum.splits)

text \<open>
  Claim C3 (the constructor loses the default exclusions). \<^verbatim>\<open>update_policy\<close> merges the
  platform defaults with the user's entries (\<open>update_policy_keeps_defaults\<close>), but
  \<^verbatim>\<open>__init__\<close> takes the user's list alone whenever it is not empty: constructed with the one
  excluded path \<^verbatim>\<open>/home/u/private\<close> on Linux, the indexer's excluded set is that path only,
  \<^verbatim>\<open>/etc\<close> is not in it, a later \<^verbatim>\<open>update_policy\<close> that passes no excluded paths leaves it so,
  and \<^verbatim>\<open>/etc/passwd\<close> is allowed under the root \<^verbatim>\<open>/\<close>.
\<close>

theorem init_drops_default_exclusions:
  "\<exists>s0 s1.
     init linux_env [''/'', ''home'', ''u'', ''data''] empty_db None
       (Some [Some [''/'', ''home'', ''u'', ''private'']]) (Float 8) = Inr s0 \<and>
     excluded_paths s0 = [[''/'', ''home'', ''u'', ''private'']] \<and>
     [''/'', ''etc''] \<in> set (default_excluded_paths linux_env) \<and>
     [''/'', ''etc''] \<notin> set (excluded_paths s0) \<and>
     update_policy linux_env s0 (Some [Some [''/'']]) None (Some (Float 4)) = Inr s1 \<and>
     [''/'', ''etc''] \<notin> set (excluded_paths s1) \<and>
     is_allowed linux_env [''/'', ''etc'', ''passwd''] [[''/'']] (excluded_paths s0) = (True, None)"
  by (simp add: init_def update_policy_def normalise_paths_def linux_env_def Let_def
      default_excluded_paths_def posix_exclusions_def linux_dirs_def lower_def lower_char_def
      is_anchor_def is_allowed_def is_under_def py_max_def DBL_MAX_def)

text \<open>
  Claim C8, as stated, fails. The indexer has no upper clamp: constructed with, or updated
  to, 5000 MB the effective value is 5000 MB (5242880000 bytes), not 2048 MB. And not every
  float yields a byte ceiling: from \<open>2^1004\<close> MB on (and for \<open>+inf\<close>) the product by \<open>2^20\<close> is
  infinite and \<^verbatim>\<open>int\<close> raises \<^verbatim>\<open>OverflowError\<close>, so that \<^verbatim>\<open>__init__\<close> fails and
  \<^verbatim>\<open>update_policy\<close> leaves the indexer with the new \<open>max_file_size_mb\<close> and the old
  \<open>max_file_size_bytes\<close>.
\<close>

theorem max_file_size_not_clamped_above:
  "(\<exists>s0 s1.
      init linux_env data_dir empty_db None None (Float 5000) = Inr s0 \<and>
      max_file_size_mb s0 = Float 5000 \<and> max_file_size_bytes s0 = 5242880000 \<and>
      update_policy linux_env fresh_indexer None None (Some (Float 5000)) = Inr s1 \<and>
      max_file_size_mb s1 = Float 5000 \<and> max_file_size_bytes s1 = 5242880000) \<and>
   py_max (Float 1) (py_min (Float 5000) (Float 2048)) = Float 2048 \<and>
   init linux_env data_dir empty_db None None (Float (2 ^ 1004)) = Inl OverflowError \<and>
   init linux_env data_dir empty_db None None PosInf = Inl OverflowError \<and>
   update_policy linux_env fresh_indexer None None (Some PosInf) =
     Inl (OverflowError, fresh_indexer\<lparr>max_file_size_mb := PosInf\<rparr>) \<and>
   max_file_size_bytes (fresh_indexer\<lparr>max_file_size_mb := PosInf\<rparr>) = 8388608"
  by (simp add: init_def update_policy_def Let_def py_max_def py_min_def DBL_MAX_def
      fresh_indexer_def)

lemma py_max_one:
  "\<not> fgt x (Float c) \<Longrightarrow> 1 \<le> c \<Longrightarrow>
   \<exists>r. py_max (Float 1) x = Float r \<and> 1 \<le> r \<and> r \<le> c"
  by (cases x) (auto simp add: py_max_def)

lemma byte_ceiling:
  assumes "1 \<le> r" and "r \<le> DBL_MAX / 1048576"
  shows "py_int (times_1024 (times_1024 (Float r))) = Inr \<lfloor>r * 1048576\<rfloor>"
proof -
  have pos: "0 < DBL_MAX" by (simp add: DBL_MAX_def)
  have big: "r * 1048576 \<le> DBL_MAX" using assms(2) by (simp add: field_simps)
  have "r * 1024 \<le> r * 1048576" using assms(1) by simp
  then have small: "r * 1024 \<le> DBL_MAX" using big by linarith
  have nonneg: "0 \<le> r * 1024" using assms(1) by simp
  have t1: "times_1024 (Float r) = Float (r * 1024)"
    using small nonneg pos by simp
  have t2: "times_1024 (Float (r * 1024)) = Float (r * 1048576)"
    using big assms(1) pos by simp
  have nn: "0 \<le> r * 1048576" using assms(1) by simp
  show ?thesis unfolding t1 t2 using nn by (simp del: mult.commute)
qed

lemma clamp_2048:
  "\<exists>r. py_max (Float 1) (py_min v (Float 2048)) = Float r \<and> 1 \<le> r \<and> r \<le> 2048"
  by (cases v) (auto simp add: py_max_def py_min_def)

text \<open>
  Claim C8, amended. For every float value \<open>x\<close> whose byte ceiling can be computed (every
  \<open>x\<close> that is not greater than \<open>DBL_MAX / 2^20\<close>, NaN and \<open>-inf\<close> included), construction and
  \<^verbatim>\<open>update_policy\<close> succeed, the effective value is \<^verbatim>\<open>max(1.0, x)\<close>, a finite value \<open>r \<ge> 1\<close>,
  and the byte ceiling is \<open>\<lfloor>r * 2^20\<rfloor>\<close>, never below 1 MB; the indexer applies no upper
  clamp. The clamp to 2048 is the caller's (\<^verbatim>\<open>AppCore.set_max_index_file_size\<close>), through which
  every float value \<open>v\<close> gives \<^verbatim>\<open>max(1.0, min(v, 2048.0))\<close>, between 1 and 2048.
\<close>

theorem max_file_size_lower_clamp:
  assumes "\<not> fgt x (Float (DBL_MAX / 1048576))"
  shows "\<exists>r s0 s1 s2 r'.
     py_max (Float 1) x = Float r \<and> 1 \<le> r \<and>
     init E b db a e x = Inr s0 \<and>
     max_file_size_mb s0 = Float r \<and> max_file_size_bytes s0 = \<lfloor>r * 1048576\<rfloor> \<and>
     1048576 \<le> max_file_size_bytes s0 \<and>
     update_policy E s a e (Some x) = Inr s1 \<and>
     max_file_size_mb s1 = Float r \<and> max_file_size_bytes s1 = \<lfloor>r * 1048576\<rfloor> \<and>
     1048576 \<le> max_file_size_bytes s1 \<and>
     set_max_index_file_size E s al ex v = Inr s2 \<and>
     py_max (Float 1) (py_min v (Float 2048)) = Float r' \<and> 1 \<le> r' \<and> r' \<le> 2048 \<and>
     max_file_size_mb s2 = Float r' \<and> max_file_size_bytes s2 = \<lfloor>r' * 1048576\<rfloor>"
proof -
  have c: "(1::real) \<le> DBL_MAX / 1048576" by (simp add: DBL_MAX_def)
  obtain r where r: "py_max (Float 1) x = Float r" "1 \<le> r" "r \<le> DBL_MAX / 1048576"
    using py_max_one[OF assms c] by blast
  obtain r' where r': "py_max (Float 1) (py_min v (Float 2048)) = Float r'" "1 \<le> r'" "r' \<le> 2048"
    using clamp_2048 by blast
  have "(2048::real) \<le> DBL_MAX / 1048576" by (simp add: DBL_MAX_def)
  then have r'max: "r' \<le> DBL_MAX / 1048576" using r'(3) by linarith
  have b1: "py_int (times_1024 (times_1024 (Float r))) = Inr \<lfloor>r * 1048576\<rfloor>"
    by (rule byte_ceiling[OF r(2) r(3)])
  have b2: "py_int (times_1024 (times_1024 (Float r'))) = Inr \<lfloor>r' * 1048576\<rfloor>"
    by (rule byte_ceiling[OF r'(2) r'max])
  have lo: "(1048576::int) \<le> \<lfloor>r * 1048576\<rfloor>"
    using r(2) by (simp add: le_floor_iff)
  have idem: "py_max (Float 1) (Float r') = Float r'"
    using r'(2) by (auto simp add: py_max_def)
  have i: "\<exists>s0. init E b db a e x = Inr s0 \<and> max_file_size_mb s0 = Float r \<and>
      max_file_size_bytes s0 = \<lfloor>r * 1048576\<rfloor>"
    by (simp add: init_def Let_def r(1) b1 del: times_1024.simps py_int.simps)
  have u: "\<exists>s1. update_policy E s a e (Some x) = Inr s1 \<and> max_file_size_mb s1 = Float r \<and>
      max_file_size_bytes s1 = \<lfloor>r * 1048576\<rfloor>"
    by (simp add: update_policy_def Let_def r(1) b1 del: times_1024.simps py_int.simps
        split: option.splits)
  have w: "\<exists>s2. set_max_index_file_size E s al ex v = Inr s2 \<and> max_file_size_mb s2 = Float r' \<and>
      max_file_size_bytes s2 = \<lfloor>r' * 1048576\<rfloor>"
    by (simp add: set_max_index_file_size_def update_policy_def Let_def r'(1) idem b2
        del: times_1024.simps py_int.simps)
  show ?thesis
    using r(1,2) r'(1,2,3) lo i u w by (metis (no_types, lifting))
qed

theorem max_file_size_lower_clamp_witness:
  "\<not> fgt (Float 5000) (Float (DBL_MAX / 1048576)) \<and>
   (\<exists>s0. init linux_env data_dir empty_db None None (Float 5000) = Inr s0 \<and>
      max_file_size_mb s0 = Float 5000 \<and> max_file_size_bytes s0 = 5242880000) \<and>
   (\<exists>s2. set_max_index_file_size linux_env fresh_indexer [] [] (Float 5000) = Inr s2 \<and>
      max_file_size_mb s2 = Float 2048 \<and> max_file_size_bytes s2 = 2147483648)"
proof -
  have h: "\<not> fgt (Float 5000) (Float (DBL_MAX / 1048576))" by (simp add: DBL_MAX_def)
  have m: "py_max (Float 1) (Float 5000) = Float 5000"
    "py_max (Float 1) (py_min (Float 5000) (Float 2048)) = Float 2048"
    by (simp_all add: py_max_def py_min_def)
  show ?thesis
    using max_file_size_lower_clamp [OF h, of linux_env data_dir empty_db None None fresh_indexer
        "[]" "[]" "Float 5000"] h
    by (auto simp add: m)
qed

subsection \<open>The store\<close>


lemma fold_max_ge: "x \<in> set ids \<Longrightarrow> x \<le> fold max ids (a::nat)"
proof (induction ids arbitrary: a)
  case Nil then show ?case by simp
next
  case (Cons y ys)
  have mono: "\<And>b. b \<le> fold max ys (b::nat)"
  proof -
    fix b show "b \<le> fold max ys (b::nat)" by (induction ys arbitrary: b) (auto intro: order_trans[OF max.cobounded2])
  qed
  show ?case
  proof (cases "x = y")
    case True
    then show ?thesis using mono[of "max y a"] by simp
  next
    case False
    then show ?thesis using Cons by simp
  qed
qed

lemma next_rowid_fresh: "x \<in> set ids \<Longrightarrow> x < next_rowid ids"
  unfolding next_rowid_def using fold_max_ge[of x ids 0] by simp

lemma select_id_replace_file:
  "select_id (replace_file rows p st ts) p = Some (next_rowid (map f_id rows))"
  by (simp add: select_id_def replace_file_def)


lemma upsert_file_eq:
  "upsert_file E s p st c =
     Some (s\<lparr>files := replace_file (files s) p st (utcnow E),
             file_content := replace_content (file_content s) (new_id s p)
               (if fts_available s then Some p else None) c\<rparr>)"
  by (simp add: upsert_file_def Let_def select_id_replace_file new_id_def)

lemma new_id_fresh: "r \<in> set (files s) \<Longrightarrow> f_id r \<noteq> new_id s p"
  unfolding new_id_def using next_rowid_fresh[of "f_id r" "map f_id (files s)"]
  by auto

lemma file_paths_upsert:
  "upsert_file E s p st c = Some s' \<Longrightarrow> file_paths s' = insert p (file_paths s)"
  by (auto simp add: upsert_file_eq file_paths_def replace_file_def Let_def)

lemma file_paths_delete: "file_paths (delete_file s p) = file_paths s - {p}"
  by (auto simp add: delete_file_def file_paths_def Let_def)

lemma store_inv_upsert:
  assumes "store_inv s" and "upsert_file E s p st c = Some s'"
  shows "store_inv s'"
proof -
  have s': "s' = s\<lparr>files := replace_file (files s) p st (utcnow E),
             file_content := replace_content (file_content s) (new_id s p)
               (if fts_available s then Some p else None) c\<rparr>"
    using assms(2) by (simp add: upsert_file_eq)
  have a: "\<forall>r \<in> set (files s). \<exists>c \<in> set (file_content s). c_rowid c = f_id r \<and> (fts_available s \<longrightarrow> c_path c = Some (f_path r))"
    using assms(1) by (simp add: store_inv_def has_content_def list_all_iff list_ex_iff)
  have b: "fts_available s \<Longrightarrow> \<forall>c \<in> set (file_content s). \<exists>r \<in> set (files s). c_path c = Some (f_path r)"
    using assms(1) by (simp add: store_inv_def list_all_iff list_ex_iff)
  have 1: "list_all (has_content s') (files s')"
    unfolding list_all_iff has_content_def list_ex_iff
  proof
    fix r assume r: "r \<in> set (files s')"
    show "\<exists>c \<in> set (file_content s'). c_rowid c = f_id r \<and> (fts_available s' \<longrightarrow> c_path c = Some (f_path r))"
    proof (cases "f_path r = p")
      case True
      then have "f_id r = new_id s p" using r by (auto simp add: s' replace_file_def Let_def new_id_def)
      then show ?thesis using True by (auto simp add: s' replace_content_def)
    next
      case False
      then have rs: "r \<in> set (files s)" using r by (auto simp add: s' replace_file_def Let_def)
      then obtain c0 where c0: "c0 \<in> set (file_content s)" "c_rowid c0 = f_id r" "fts_available s \<longrightarrow> c_path c0 = Some (f_path r)"
        using a by blast
      have "f_id r \<noteq> new_id s p" using new_id_fresh[OF rs] .
      then have "c0 \<in> set (file_content s')" using c0 by (simp add: s' replace_content_def)
      then show ?thesis using c0 by (auto simp add: s')
    qed
  qed
  have 2: "fts_available s' \<longrightarrow> list_all (\<lambda>c. list_ex (\<lambda>r. c_path c = Some (f_path r)) (files s')) (file_content s')"
  proof
    assume f: "fts_available s'"
    then have fs: "fts_available s" by (simp add: s')
    show "list_all (\<lambda>c. list_ex (\<lambda>r. c_path c = Some (f_path r)) (files s')) (file_content s')"
      unfolding list_all_iff list_ex_iff
    proof
      fix c1 assume c1: "c1 \<in> set (file_content s')"
      show "\<exists>r \<in> set (files s'). c_path c1 = Some (f_path r)"
      proof (cases "c_path c1 = Some p")
        case True
        then show ?thesis by (auto simp add: s' replace_file_def Let_def)
      next
        case False
        then have "c1 \<in> set (file_content s)" using c1 fs by (auto simp add: s' replace_content_def)
        then obtain r where r: "r \<in> set (files s)" "c_path c1 = Some (f_path r)" using b[OF fs] by blast
        then have "f_path r \<noteq> p" using False by auto
        then have "r \<in> set (files s')" using r by (simp add: s' replace_file_def Let_def)
        then show ?thesis using r by blast
      qed
    qed
  qed
  show ?thesis unfolding store_inv_def using 1 2 by simp
qed

lemma store_inv_delete:
  assumes "store_inv s"
  shows "store_inv (delete_file s p)"
proof -
  let ?s' = "delete_file s p"
  have a: "\<forall>r \<in> set (files s). \<exists>c \<in> set (file_content s). c_rowid c = f_id r \<and> (fts_available s \<longrightarrow> c_path c = Some (f_path r))"
    using assms(1) by (simp add: store_inv_def has_content_def list_all_iff list_ex_iff)
  have b: "fts_available s \<Longrightarrow> \<forall>c \<in> set (file_content s). \<exists>r \<in> set (files s). c_path c = Some (f_path r)"
    using assms(1) by (simp add: store_inv_def list_all_iff list_ex_iff)
  have fl: "fts_available ?s' = fts_available s" by (simp add: delete_file_def Let_def)
  have fs: "set (files ?s') = {r \<in> set (files s). f_path r \<noteq> p}" by (auto simp add: delete_file_def Let_def)
  have 1: "list_all (has_content ?s') (files ?s')"
    unfolding list_all_iff has_content_def list_ex_iff
  proof
    fix r assume r: "r \<in> set (files ?s')"
    then have rs: "r \<in> set (files s)" "f_path r \<noteq> p" using fs by auto
    then obtain c0 where c0: "c0 \<in> set (file_content s)" "c_rowid c0 = f_id r" "fts_available s \<longrightarrow> c_path c0 = Some (f_path r)"
      using a by blast
    have "c0 \<in> set (file_content ?s')"
      using c0 rs by (auto simp add: delete_file_def Let_def)
    then show "\<exists>c \<in> set (file_content ?s'). c_rowid c = f_id r \<and> (fts_available ?s' \<longrightarrow> c_path c = Some (f_path r))"
      using c0 fl by auto
  qed
  have 2: "fts_available ?s' \<longrightarrow> list_all (\<lambda>c. list_ex (\<lambda>r. c_path c = Some (f_path r)) (files ?s')) (file_content ?s')"
  proof
    assume "fts_available ?s'"
    then have f: "fts_available s" using fl by simp
    show "list_all (\<lambda>c. list_ex (\<lambda>r. c_path c = Some (f_path r)) (files ?s')) (file_content ?s')"
      unfolding list_all_iff list_ex_iff
    proof
      fix c1 assume c1: "c1 \<in> set (file_content ?s')"
      then have c1s: "c1 \<in> set (file_content s)" "c_path c1 \<noteq> Some p" using f by (auto simp add: delete_file_def Let_def)
      then obtain r where r: "r \<in> set (files s)" "c_path c1 = Some (f_path r)" using b[OF f] by blast
      then have "r \<in> set (files ?s')" using c1s fs by auto
      then show "\<exists>r \<in> set (files ?s'). c_path c1 = Some (f_path r)" using r by blast
    qed
  qed
  show ?thesis unfolding store_inv_def using 1 2 by simp
qed

lemma store_inv_paths:
  assumes "store_inv s"
  shows "content_paths s = file_paths s"
proof (cases "fts_available s")
  case True
  have a: "\<forall>r \<in> set (files s). \<exists>c \<in> set (file_content s). c_rowid c = f_id r \<and> c_path c = Some (f_path r)"
    using assms(1) True by (simp add: store_inv_def has_content_def list_all_iff list_ex_iff)
  have b: "\<forall>c \<in> set (file_content s). \<exists>r \<in> set (files s). c_path c = Some (f_path r)"
    using assms(1) True by (simp add: store_inv_def list_all_iff list_ex_iff)
  show ?thesis
  proof
    show "content_paths s \<subseteq> file_paths s"
      using b True by (auto simp add: content_paths_def file_paths_def)
    show "file_paths s \<subseteq> content_paths s"
    proof
      fix q assume "q \<in> file_paths s"
      then obtain r where "r \<in> set (files s)" "f_path r = q" by (auto simp add: file_paths_def)
      then obtain c where "c \<in> set (file_content s)" "c_path c = Some q" using a by blast
      then show "q \<in> content_paths s" using True by (force simp add: content_paths_def)
    qed
  qed
next
  case False
  have a: "\<forall>r \<in> set (files s). \<exists>c \<in> set (file_content s). c_rowid c = f_id r"
    using assms(1) False by (simp add: store_inv_def has_content_def list_all_iff list_ex_iff)
  show ?thesis
  proof
    show "content_paths s \<subseteq> file_paths s"
      using False by (auto simp add: content_paths_def file_paths_def)
    show "file_paths s \<subseteq> content_paths s"
    proof
      fix q assume "q \<in> file_paths s"
      then obtain r where r: "r \<in> set (files s)" "f_path r = q" by (auto simp add: file_paths_def)
      then obtain c where "c \<in> set (file_content s)" "c_rowid c = f_id r" using a by blast
      then have "f_id r \<in> set (map c_rowid (file_content s))" by force
      then have "r \<in> set (filter (\<lambda>r. f_id r \<in> set (map c_rowid (file_content s))) (files s))"
        using r by simp
      then have "f_path r \<in> set (map f_path (filter (\<lambda>r. f_id r \<in> set (map c_rowid (file_content s))) (files s)))"
        by (simp only: set_map image_eqI)
      then show "q \<in> content_paths s" using False r by (simp add: content_paths_def)
    qed
  qed
qed









lemma not_indexed_after_delete:
  "p \<notin> file_paths (delete_file s p)" "linked_content (delete_file s p) p = []"
  "fts_available s \<Longrightarrow> Some p \<notin> set (map c_path (file_content (delete_file s p)))"
  "\<not> fts_available s \<Longrightarrow> set (map c_rowid (file_content (delete_file s p))) \<subseteq> set (map f_id (files (delete_file s p)))"
  by (auto simp add: delete_file_def file_paths_def linked_content_def Let_def)


lemma store_inv_empty: "store_inv fresh_indexer"
  by (simp add: store_inv_def fresh_indexer_def)

text \<open>
  Claim C5 (an upsert leaves the old content row behind). The schema declares the content
  row of the fallback backend \<^verbatim>\<open>ON DELETE CASCADE\<close> and \<^verbatim>\<open>_delete_file\<close> removes the content rows
  that have lost their \<open>files\<close> row, but \<^verbatim>\<open>_upsert_file\<close> does neither: \<^verbatim>\<open>INSERT OR REPLACE\<close> gives
  the replaced \<open>files\<close> row a new \<open>id\<close>, foreign keys are not switched on, and the content row
  of the old \<open>id\<close> stays. With \<^verbatim>\<open>a.txt\<close> (id 1, content \<^verbatim>\<open>alpha\<close>) and \<^verbatim>\<open>b.txt\<close> (id 2) in the store,
  upserting \<^verbatim>\<open>a.txt\<close> again with the content \<^verbatim>\<open>gamma\<close> gives \<^verbatim>\<open>a.txt\<close> the id 3 and leaves the content
  row 1: on the fallback backend a content row with no \<open>files\<close> row, on the FTS5 backend two
  content rows that carry the path \<^verbatim>\<open>a.txt\<close>, the old text among them. The same store results
  from \<^verbatim>\<open>rebuild_index\<close> after \<^verbatim>\<open>a.txt\<close> was rewritten. And the replacement is not atomic: when
  the second \<^verbatim>\<open>INSERT\<close> raises, the new \<open>files\<close> row is there without any content row (here
  for the new file \<^verbatim>\<open>c.txt\<close>).
\<close>

theorem upsert_leaves_old_content_row:
  "(\<exists>s'. upsert_file linux_env two_files_plain (data_dir @ [''a.txt''])
            \<lparr>st_mtime = 20, st_size = 6\<rparr> ''gamma'' = Some s' \<and>
      map (\<lambda>r. (f_id r, f_path r)) (files s') =
        [(2, data_dir @ [''b.txt'']), (3, data_dir @ [''a.txt''])] \<and>
      file_content s' =
        [\<lparr> c_rowid = 1, c_path = None, c_content = ''alpha'' \<rparr>,
         \<lparr> c_rowid = 2, c_path = None, c_content = ''beta'' \<rparr>,
         \<lparr> c_rowid = 3, c_path = None, c_content = ''gamma'' \<rparr>] \<and>
      orphan_content s' = [\<lparr> c_rowid = 1, c_path = None, c_content = ''alpha'' \<rparr>]) \<and>
   orphan_content two_files_plain = [] \<and>
   (\<exists>s'. upsert_file linux_env two_files_fts (data_dir @ [''a.txt''])
            \<lparr>st_mtime = 20, st_size = 6\<rparr> ''gamma'' = Some s' \<and>
      map (\<lambda>r. (f_id r, f_path r)) (files s') =
        [(2, data_dir @ [''b.txt'']), (3, data_dir @ [''a.txt''])] \<and>
      file_content s' =
        [\<lparr> c_rowid = 1, c_path = Some (data_dir @ [''a.txt'']), c_content = ''alpha'' \<rparr>,
         \<lparr> c_rowid = 2, c_path = Some (data_dir @ [''b.txt'']), c_content = ''beta'' \<rparr>,
         \<lparr> c_rowid = 3, c_path = Some (data_dir @ [''a.txt'']), c_content = ''gamma'' \<rparr>] \<and>
      orphan_content s' =
        [\<lparr> c_rowid = 1, c_path = Some (data_dir @ [''a.txt'']), c_content = ''alpha'' \<rparr>]) \<and>
   map_option (\<lambda>(rep, s', prog).
        (rep_updated rep, map (\<lambda>r. (f_id r, path_name (f_path r))) (files s'),
         map (\<lambda>c. (c_rowid c, c_content c)) (file_content s'),
         map c_rowid (orphan_content s')))
     (rebuild_index changed_file_env True two_files_plain) =
     Some (Some 1, [(2, ''b.txt''), (3, ''a.txt'')],
           [(1, ''alpha''), (2, ''beta''), (3, ''gamma'')], [1]) \<and>
   data_dir @ [''c.txt''] \<in> file_paths (upsert_file_interrupted linux_env two_files_plain
      (data_dir @ [''c.txt'']) \<lparr>st_mtime = 20, st_size = 6\<rparr>) \<and>
   linked_content (upsert_file_interrupted linux_env two_files_plain
      (data_dir @ [''c.txt'']) \<lparr>st_mtime = 20, st_size = 6\<rparr>) (data_dir @ [''c.txt'']) = [] \<and>
   data_dir @ [''c.txt''] \<notin> content_paths (upsert_file_interrupted linux_env two_files_fts
      (data_dir @ [''c.txt'']) \<lparr>st_mtime = 20, st_size = 6\<rparr>)"
proof -
  have r: "map_option (\<lambda>(rep, s', prog).
        (rep_updated rep, map (\<lambda>r. (f_id r, path_name (f_path r))) (files s'),
         map (\<lambda>c. (c_rowid c, c_content c)) (file_content s'),
         map c_rowid (orphan_content s')))
     (rebuild_index changed_file_env True two_files_plain) =
     Some (Some 1, [(2, ''b.txt''), (3, ''a.txt'')],
           [(1, ''alpha''), (2, ''beta''), (3, ''gamma'')], [1])"
    by code_simp
  show ?thesis
    unfolding r
    by (simp add: upsert_file_def upsert_file_interrupted_def replace_file_def replace_content_def
        select_id_def next_rowid_def orphan_content_def two_files_plain_def two_files_fts_def
        fresh_indexer_def linux_env_def data_dir_def Let_def file_paths_def linked_content_def
        content_paths_def)
qed

subsection \<open>Crawl and rebuild\<close>

subsection \<open>Configuration is not written\<close>

lemma same_config_refl: "same_config s s"
  by (simp add: same_config_def)

lemma same_config_trans: "same_config a b \<Longrightarrow> same_config b c \<Longrightarrow> same_config a c"
  by (simp add: same_config_def)


lemma same_config_record_skip: "same_config s (record_skip s p n)"
  by (simp add: same_config_def record_skip_def)


lemma same_config_delete: "same_config s (delete_file s p)"
  by (simp add: same_config_def delete_file_def Let_def)

lemma same_config_delete_stale: "same_config s (delete_stale ps s)"
  unfolding delete_stale_def
  by (induction ps arbitrary: s) (auto intro: same_config_refl same_config_trans same_config_delete)

subsection \<open>The crawl reads the policy only\<close>

lemma check_allowed_cong:
  "allowed_roots s' = allowed_roots s \<Longrightarrow> excluded_paths s' = excluded_paths s \<Longrightarrow>
   check_allowed E s' p = check_allowed E s p"
  by (simp add: check_allowed_def)

lemma prune_dirs_cong:
  "allowed_roots s' = allowed_roots s \<Longrightarrow> excluded_paths s' = excluded_paths s \<Longrightarrow>
   prune_dirs E s' dir ds pruned sk = prune_dirs E s dir ds pruned sk"
  by (induction ds arbitrary: pruned sk) (simp_all add: check_allowed_def Let_def split: prod.splits bool.splits)

lemma scan_files_cong:
  "allowed_roots s' = allowed_roots s \<Longrightarrow> excluded_paths s' = excluded_paths s \<Longrightarrow>
   allowed_extensions s' = allowed_extensions s \<Longrightarrow>
   scan_files E s' dir fs c = scan_files E s dir fs c"
  by (induction fs arbitrary: c) (simp_all add: check_allowed_def Let_def split: prod.splits bool.splits)

lemma walk_cong_both:
  fixes s s' :: indexer
  assumes "allowed_roots s' = allowed_roots s" "excluded_paths s' = excluded_paths s"
    "allowed_extensions s' = allowed_extensions s"
  shows "(\<forall>dir c. walk E s' dir t c = walk E s dir t c) \<and>
         (\<forall>dir pruned c. walk_dirs E s' dir pruned ds c = walk_dirs E s dir pruned ds c)"
proof (rule fstree_fsdirs.induct
    [where ?P1.0 = "\<lambda>t. \<forall>dir c. walk E s' dir t c = walk E s dir t c"
       and ?P2.0 = "\<lambda>ds. \<forall>dir pruned c. walk_dirs E s' dir pruned ds c = walk_dirs E s dir pruned ds c"])
  show "\<forall>dir c. walk E s' dir FsUnreadable c = walk E s dir FsUnreadable c" by simp
next
  fix filenames subdirs
  assume IH: "\<forall>dir pruned c. walk_dirs E s' dir pruned subdirs c = walk_dirs E s dir pruned subdirs c"
  have ca: "\<And>dir. check_allowed E s' dir = check_allowed E s dir"
    using assms by (simp add: check_allowed_def)
  have pd: "\<And>dir sk. prune_dirs E s' dir (dir_names subdirs) [] sk = prune_dirs E s dir (dir_names subdirs) [] sk"
    by (rule prune_dirs_cong) (use assms in simp_all)
  have sf: "\<And>dir c. scan_files E s' dir filenames c = scan_files E s dir filenames c"
    by (rule scan_files_cong) (use assms in simp_all)
  show "\<forall>dir c. walk E s' dir (FsDir filenames subdirs) c = walk E s dir (FsDir filenames subdirs) c"
    by (simp only: walk.simps ca pd sf IH) simp
next
  show "\<forall>dir pruned c. walk_dirs E s' dir pruned FsNil c = walk_dirs E s dir pruned FsNil c" by simp
next
  fix name link t rest
  assume IH1: "\<forall>dir c. walk E s' dir t c = walk E s dir t c"
    and IH2: "\<forall>dir pruned c. walk_dirs E s' dir pruned rest c = walk_dirs E s dir pruned rest c"
  show "\<forall>dir pruned c. walk_dirs E s' dir pruned (FsCons name link t rest) c =
      walk_dirs E s dir pruned (FsCons name link t rest) c"
    by (simp only: walk_dirs.simps IH1 IH2) simp
qed

lemma collect_candidates_cong:
  assumes "allowed_roots s' = allowed_roots s" "excluded_paths s' = excluded_paths s"
    "allowed_extensions s' = allowed_extensions s" "last_skipped s' = last_skipped s"
  shows "fst (collect_candidates E s' d) = fst (collect_candidates E s d)"
    and "last_skipped (snd (collect_candidates E s' d)) = last_skipped (snd (collect_candidates E s d))"
  using walk_cong_both[OF assms(1-3), of E "dir_tree E d"] assms(4)
  by (simp_all add: collect_candidates_def Let_def)

lemma collect_candidates_snd:
  "snd (collect_candidates E s d) = s\<lparr>last_skipped := last_skipped (snd (collect_candidates E s d))\<rparr>"
  by (simp add: collect_candidates_def Let_def)


subsection \<open>The snapshot\<close>






subsection \<open>Stale deletion\<close>

lemma delete_stale_Cons: "delete_stale (p # ps) s = delete_stale ps (delete_file s p)"
  by (simp add: delete_stale_def)

lemma delete_stale_Nil: "delete_stale [] s = s"
  by (simp add: delete_stale_def)

lemma file_paths_delete_stale: "file_paths (delete_stale ps s) = file_paths s - set ps"
  by (induction ps arbitrary: s) (auto simp add: delete_stale_Nil delete_stale_Cons file_paths_delete)

lemma content_subset_delete: "set (file_content (delete_file s p)) \<subseteq> set (file_content s)"
  by (auto simp add: delete_file_def Let_def)

lemma content_subset_delete_stale: "set (file_content (delete_stale ps s)) \<subseteq> set (file_content s)"
proof (induction ps arbitrary: s)
  case Nil
  show ?case by (simp add: delete_stale_Nil)
next
  case (Cons a ps)
  show ?case
    using Cons[of "delete_file s a"] content_subset_delete[of s a]
    by (auto simp add: delete_stale_Cons)
qed

lemma fts_delete_stale: "fts_available (delete_stale ps s) = fts_available s"
  using same_config_delete_stale[of s ps] by (simp add: same_config_def)

lemma no_content_after_delete_stale:
  assumes "fts_available s" and "q \<in> set ps"
  shows "Some q \<notin> set (map c_path (file_content (delete_stale ps s)))"
  using assms
proof (induction ps arbitrary: s)
  case Nil
  then show ?case by simp
next
  case (Cons a ps)
  have f: "fts_available (delete_file s a)" using Cons.prems(1) by (simp add: delete_file_def Let_def)
  show ?case
  proof (cases "q = a")
    case True
    have "Some q \<notin> set (map c_path (file_content (delete_file s a)))"
      using Cons.prems(1) True by (auto simp add: delete_file_def Let_def)
    then show ?thesis
      using content_subset_delete_stale[of ps "delete_file s a"]
      by (auto simp add: delete_stale_Cons)
  next
    case False
    then have "q \<in> set ps" using Cons.prems(2) by simp
    then show ?thesis using Cons.IH[OF f] by (simp add: delete_stale_Cons)
  qed
qed

lemma content_paths_subset_fallback:
  "\<not> fts_available s \<Longrightarrow> content_paths s \<subseteq> file_paths s"
  by (auto simp add: content_paths_def file_paths_def)

lemma store_inv_delete_stale: "store_inv s \<Longrightarrow> store_inv (delete_stale ps s)"
  by (induction ps arbitrary: s) (simp_all add: delete_stale_Nil delete_stale_Cons store_inv_delete)



lemma last_skipped_delete_stale: "last_skipped (delete_stale ps s) = last_skipped s"
  by (induction ps arbitrary: s) (simp_all add: delete_stale_Nil delete_stale_Cons delete_file_def Let_def)


subsection \<open>The loop body\<close>

lemma loop_body_cases:
  obtains (stat_failed) exc where "stat E p = Inl exc"
      "loop_body E cb tot ex idx p r =
         Some (r\<lparr>run_seen := run_seen r @ [p], run_processed := run_processed r + 1,
                 run_ix := record_error (run_ix r) p (''Stat failed: '' @ exc)\<rparr>)"
  | (unchanged) st where "stat E p = Inr st" "ex p = Some (st_mtime st, st_size st)"
      "loop_body E cb tot ex idx p r =
         Some (on_progress cb idx tot p
                 (r\<lparr>run_seen := run_seen r @ [p], run_processed := run_processed r + 1\<rparr>))"
  | (updated) st snippet nt s' where "stat E p = Inr st" "ex p \<noteq> Some (st_mtime st, st_size st)"
      "read_text_snippet E (run_ix r) p (st_size st) = (snippet, nt)"
      "upsert_file E (run_ix r) p st
         (case snippet of None \<Rightarrow> path_name p @ '' (no readable text found)'' | Some t \<Rightarrow> t) = Some s'"
      "loop_body E cb tot ex idx p r =
         Some (on_progress cb idx tot p
                 (r\<lparr>run_seen := run_seen r @ [p], run_processed := run_processed r + 1,
                    run_ix := (case nt of None \<Rightarrow> s'
                               | Some n \<Rightarrow> if n = [] then s' else record_skip s' p n),
                    run_updated := run_updated r + 1\<rparr>))"
proof (cases "stat E p")
  case (Inl exc)
  then have "loop_body E cb tot ex idx p r =
         Some (r\<lparr>run_seen := run_seen r @ [p], run_processed := run_processed r + 1,
                 run_ix := record_error (run_ix r) p (''Stat failed: '' @ exc)\<rparr>)"
    by (simp add: loop_body_def Let_def)
  with Inl show thesis by (rule stat_failed)
next
  case (Inr st)
  show thesis
  proof (cases "ex p = Some (st_mtime st, st_size st)")
    case True
    then have "loop_body E cb tot ex idx p r =
         Some (on_progress cb idx tot p
                 (r\<lparr>run_seen := run_seen r @ [p], run_processed := run_processed r + 1\<rparr>))"
      using Inr by (simp add: loop_body_def Let_def)
    with Inr True show thesis by (rule unchanged)
  next
    case False
    obtain snippet nt where sn: "read_text_snippet E (run_ix r) p (st_size st) = (snippet, nt)"
      by (cases "read_text_snippet E (run_ix r) p (st_size st)") auto
    obtain s' where s': "upsert_file E (run_ix r) p st
         (case snippet of None \<Rightarrow> path_name p @ '' (no readable text found)'' | Some t \<Rightarrow> t) = Some s'"
      by (simp add: upsert_file_eq)
    have "loop_body E cb tot ex idx p r =
         Some (on_progress cb idx tot p
                 (r\<lparr>run_seen := run_seen r @ [p], run_processed := run_processed r + 1,
                    run_ix := (case nt of None \<Rightarrow> s'
                               | Some n \<Rightarrow> if n = [] then s' else record_skip s' p n),
                    run_updated := run_updated r + 1\<rparr>))"
      using Inr False sn s' by (simp add: loop_body_def Let_def)
    with Inr False sn s' show thesis by (rule updated)
  qed
qed

lemma on_progress_simps:
  "run_ix (on_progress cb idx tot p r) = run_ix r"
  "run_seen (on_progress cb idx tot p r) = run_seen r"
  "run_updated (on_progress cb idx tot p r) = run_updated r"
  "run_processed (on_progress cb idx tot p r) = run_processed r"
  "run_cancelled (on_progress cb idx tot p r) = run_cancelled r"
  "run_progress (on_progress cb idx tot p r) =
     (if cb then run_progress r @ [(idx, tot, path_str p)] else run_progress r)"
  by (simp_all add: on_progress_def)

lemma loop_body_total: "\<exists>r'. loop_body E cb tot ex idx p r = Some r'"
  by (rule loop_body_cases[of E p cb tot ex idx r]) auto

lemma loop_body_seen:
  "loop_body E cb tot ex idx p r = Some r' \<Longrightarrow>
   run_seen r' = run_seen r @ [p] \<and> run_processed r' = run_processed r + 1 \<and>
   run_cancelled r' = run_cancelled r"
  by (rule loop_body_cases[of E p cb tot ex idx r]) (auto simp add: on_progress_simps)




lemma noted_store:
  "files (case nt of None \<Rightarrow> s' | Some n \<Rightarrow> if n = [] then s' else record_skip s' p n) = files s'"
  "file_content (case nt of None \<Rightarrow> s' | Some n \<Rightarrow> if n = [] then s' else record_skip s' p n) = file_content s'"
  "fts_available (case nt of None \<Rightarrow> s' | Some n \<Rightarrow> if n = [] then s' else record_skip s' p n) = fts_available s'"
  by (auto simp add: record_skip_def split: option.splits)



lemma store_inv_cong:
  "files s' = files s \<Longrightarrow> file_content s' = file_content s \<Longrightarrow>
   fts_available s' = fts_available s \<Longrightarrow> store_inv s' = store_inv s"
  by (simp add: store_inv_def list_all_iff has_content_def)

lemma loop_body_store_inv:
  assumes "loop_body E cb tot ex idx p r = Some r'" and "store_inv (run_ix r)"
  shows "store_inv (run_ix r')"
proof (rule loop_body_cases[of E p cb tot ex idx r])
  fix exc
  assume "loop_body E cb tot ex idx p r =
         Some (r\<lparr>run_seen := run_seen r @ [p], run_processed := run_processed r + 1,
                 run_ix := record_error (run_ix r) p (''Stat failed: '' @ exc)\<rparr>)"
  then have "run_ix r' = record_error (run_ix r) p (''Stat failed: '' @ exc)"
    using assms(1) by auto
  then have "store_inv (run_ix r') = store_inv (run_ix r)"
    by (intro store_inv_cong) (simp_all add: record_error_def)
  then show ?thesis using assms(2) by simp
next
  fix st
  assume "loop_body E cb tot ex idx p r =
         Some (on_progress cb idx tot p
                 (r\<lparr>run_seen := run_seen r @ [p], run_processed := run_processed r + 1\<rparr>))"
  then show ?thesis using assms by (auto simp add: on_progress_simps)
next
  fix st snippet nt s'
  assume a: "upsert_file E (run_ix r) p st
         (case snippet of None \<Rightarrow> path_name p @ '' (no readable text found)'' | Some t \<Rightarrow> t) = Some s'"
    "loop_body E cb tot ex idx p r =
         Some (on_progress cb idx tot p
                 (r\<lparr>run_seen := run_seen r @ [p], run_processed := run_processed r + 1,
                    run_ix := (case nt of None \<Rightarrow> s'
                               | Some n \<Rightarrow> if n = [] then s' else record_skip s' p n),
                    run_updated := run_updated r + 1\<rparr>))"
  have "store_inv s'" using assms(2) a(1) by (rule store_inv_upsert)
  moreover have "store_inv (case nt of None \<Rightarrow> s' | Some n \<Rightarrow> if n = [] then s' else record_skip s' p n) = store_inv s'"
    by (intro store_inv_cong) (simp_all add: noted_store)
  ultimately have "store_inv (case nt of None \<Rightarrow> s' | Some n \<Rightarrow> if n = [] then s' else record_skip s' p n)"
    by simp
  then show ?thesis using a(2) assms(1) by (auto simp add: on_progress_simps)
qed

lemma loop_body_progress:
  assumes "loop_body E cb tot ex idx p r = Some r'"
  shows "run_progress r' =
     run_progress r @ (if cb \<and> stat_values E p \<noteq> None then [(idx, tot, path_str p)] else [])"
  by (rule loop_body_cases[of E p cb tot ex idx r])
     (use assms in \<open>auto simp add: on_progress_simps stat_values_def\<close>)

subsection \<open>The loop\<close>

lemma rebuild_loop_total: "\<exists>r'. rebuild_loop E cb tot ex idx cands r = Some r'"
proof (induction cands arbitrary: idx r)
  case Nil
  show ?case by simp
next
  case (Cons p cands)
  obtain r1 where "loop_body E cb tot ex idx p r = Some r1" using loop_body_total by blast
  then show ?case using Cons[of "idx + 1" r1] by simp
qed

lemma rebuild_loop_seen:
  "rebuild_loop E cb tot ex idx cands r = Some r' \<Longrightarrow>
   run_seen r' = run_seen r @ processed_prefix (loop_cancel E) idx cands"
proof (induction cands arbitrary: idx r)
  case Nil
  then show ?case by simp
next
  case (Cons p cands)
  show ?case
  proof (cases "loop_cancel E idx")
    case True
    then show ?thesis using Cons.prems by auto
  next
    case False
    obtain r1 where r1: "loop_body E cb tot ex idx p r = Some r1" using loop_body_total by blast
    then have "rebuild_loop E cb tot ex (idx + 1) cands r1 = Some r'" using Cons.prems False by simp
    then have "run_seen r' = run_seen r1 @ processed_prefix (loop_cancel E) (idx + 1) cands"
      by (rule Cons.IH)
    then show ?thesis using False loop_body_seen[OF r1] by simp
  qed
qed



lemma rebuild_loop_store_inv:
  "rebuild_loop E cb tot ex idx cands r = Some r' \<Longrightarrow> store_inv (run_ix r) \<Longrightarrow> store_inv (run_ix r')"
proof (induction cands arbitrary: idx r)
  case Nil
  then show ?case by simp
next
  case (Cons p cands)
  show ?case
  proof (cases "loop_cancel E idx")
    case True
    then show ?thesis using Cons.prems by auto
  next
    case False
    obtain r1 where r1: "loop_body E cb tot ex idx p r = Some r1" using loop_body_total by blast
    then have "rebuild_loop E cb tot ex (idx + 1) cands r1 = Some r'" using Cons.prems False by simp
    then show ?thesis using Cons.IH loop_body_store_inv[OF r1 Cons.prems(2)] by blast
  qed
qed



lemma rebuild_loop_progress:
  "rebuild_loop E cb tot ex idx cands r = Some r' \<Longrightarrow>
   length (run_progress r') = length (run_progress r) +
     (if cb then length (filter (\<lambda>p. stat_values E p \<noteq> None)
                    (processed_prefix (loop_cancel E) idx cands)) else 0)"
proof (induction cands arbitrary: idx r)
  case Nil
  then show ?case by simp
next
  case (Cons p cands)
  show ?case
  proof (cases "loop_cancel E idx")
    case True
    then show ?thesis using Cons.prems by auto
  next
    case False
    obtain r1 where r1: "loop_body E cb tot ex idx p r = Some r1" using loop_body_total by blast
    then have l: "rebuild_loop E cb tot ex (idx + 1) cands r1 = Some r'" using Cons.prems False by simp
    show ?thesis using Cons.IH[OF l] loop_body_progress[OF r1] False by auto
  qed
qed



subsection \<open>The crawl in an unchanged file system\<close>





lemma crawled_store:
  "files (crawled E s) = files s" "file_content (crawled E s) = file_content s"
  "same_config s (crawled E s)" "last_errors (crawled E s) = []"
  by (simp_all add: crawled_def collect_candidates_def Let_def same_config_def)

lemma collect_candidates_eq:
  "collect_candidates E (s\<lparr>last_skipped := [], last_errors := []\<rparr>) (get_base_path E s) =
     (candidates_of E s, crawled E s)"
  by (simp add: candidates_of_def crawled_def)


subsection \<open>rebuild\_index as crawl, loop, stale deletion\<close>

lemma rebuild_index_unfold:
  assumes "path_exists E (get_base_path E s)"
  shows "\<exists>r. rebuild_loop E cb (length (candidates_of E s)) (snapshot (files s)) 1 (candidates_of E s)
              \<lparr> run_ix = crawled E s, run_updated = 0, run_processed = 0, run_seen = [],
                run_cancelled = False, run_progress = [] \<rparr> = Some r \<and>
             rebuild_index E cb s =
               Some (\<lparr> rep_documents = count_files (delete_stale (stale_paths (files s) (run_seen r)) (run_ix r)),
                        rep_total_scanned = length (candidates_of E s),
                        rep_updated = Some (run_updated r), rep_processed = Some (run_processed r),
                        rep_skipped = length (last_skipped (run_ix r)),
                        rep_errors = length (last_errors (delete_stale (stale_paths (files s) (run_seen r)) (run_ix r))),
                        rep_cancelled = run_cancelled r \<rparr>,
                     (delete_stale (stale_paths (files s) (run_seen r)) (run_ix r))
                       \<lparr>meta_last_indexed := Some (utcnow E),
                         meta_document_count :=
                           Some (count_files (delete_stale (stale_paths (files s) (run_seen r)) (run_ix r)))\<rparr>,
                     run_progress r)"
proof -
  obtain r where r: "rebuild_loop E cb (length (candidates_of E s)) (snapshot (files s)) 1 (candidates_of E s)
              \<lparr> run_ix = crawled E s, run_updated = 0, run_processed = 0, run_seen = [],
                run_cancelled = False, run_progress = [] \<rparr> = Some r"
    using rebuild_loop_total by blast
  have "rebuild_index E cb s =
               Some (\<lparr> rep_documents = count_files (delete_stale (stale_paths (files s) (run_seen r)) (run_ix r)),
                        rep_total_scanned = length (candidates_of E s),
                        rep_updated = Some (run_updated r), rep_processed = Some (run_processed r),
                        rep_skipped = length (last_skipped (run_ix r)),
                        rep_errors = length (last_errors (delete_stale (stale_paths (files s) (run_seen r)) (run_ix r))),
                        rep_cancelled = run_cancelled r \<rparr>,
                     (delete_stale (stale_paths (files s) (run_seen r)) (run_ix r))
                       \<lparr>meta_last_indexed := Some (utcnow E),
                         meta_document_count :=
                           Some (count_files (delete_stale (stale_paths (files s) (run_seen r)) (run_ix r)))\<rparr>,
                     run_progress r)"
    using assms r
    by (simp add: rebuild_index_def Let_def collect_candidates_eq crawled_store last_skipped_delete_stale)
  with r show ?thesis by blast
qed

lemma linked_content_none: "p \<notin> file_paths s \<Longrightarrow> linked_content s p = []"
proof -
  assume "p \<notin> file_paths s"
  then have "filter (\<lambda>r. f_path r = p) (files s) = []"
    by (auto simp add: file_paths_def filter_empty_conv)
  then show ?thesis by (simp add: linked_content_def)
qed

lemma rebuild_loop_cancel_flag:
  "rebuild_loop E cb tot ex idx cands r = Some r' \<Longrightarrow>
   run_cancelled r' = (run_cancelled r \<or> processed_prefix (loop_cancel E) idx cands \<noteq> cands)"
proof (induction cands arbitrary: idx r)
  case Nil
  then show ?case by simp
next
  case (Cons p cands)
  show ?case
  proof (cases "loop_cancel E idx")
    case True
    then show ?thesis using Cons.prems by auto
  next
    case False
    obtain r1 where r1: "loop_body E cb tot ex idx p r = Some r1" using loop_body_total by blast
    then have l: "rebuild_loop E cb tot ex (idx + 1) cands r1 = Some r'" using Cons.prems False by simp
    show ?thesis using Cons.IH[OF l] loop_body_seen[OF r1] False by simp
  qed
qed

text \<open>
  Claim C10. Whatever the cancel flag does, the stale-deletion pass runs after the loop,
  against the paths the loop reached: a path that was indexed before the run and is not in
  the processed prefix of the candidates (the candidates being what the crawl, cut short or
  not, returned) has no \<open>files\<close> row and no content row afterwards, whether or not the file
  still exists. The report says \<open>cancelled\<close> exactly when the loop stopped before the end of
  the candidates.
\<close>

theorem cancelled_rebuild_deletes_unseen:
  assumes "path_exists E (get_base_path E s)"
    and "p \<in> file_paths s"
    and "p \<notin> set (processed_prefix (loop_cancel E) 1 (candidates_of E s))"
  shows "\<exists>rep s' prog. rebuild_index E cb s = Some (rep, s', prog) \<and>
           rep_cancelled rep = (processed_prefix (loop_cancel E) 1 (candidates_of E s) \<noteq> candidates_of E s) \<and>
           p \<notin> file_paths s' \<and> p \<notin> content_paths s' \<and> linked_content s' p = []"
proof -
  let ?r0 = "\<lparr> run_ix = crawled E s, run_updated = 0, run_processed = 0, run_seen = [],
                run_cancelled = False, run_progress = [] \<rparr>"
  obtain r where loop: "rebuild_loop E cb (length (candidates_of E s)) (snapshot (files s)) 1
        (candidates_of E s) ?r0 = Some r"
    and res: "rebuild_index E cb s =
               Some (\<lparr> rep_documents = count_files (delete_stale (stale_paths (files s) (run_seen r)) (run_ix r)),
                        rep_total_scanned = length (candidates_of E s),
                        rep_updated = Some (run_updated r), rep_processed = Some (run_processed r),
                        rep_skipped = length (last_skipped (run_ix r)),
                        rep_errors = length (last_errors (delete_stale (stale_paths (files s) (run_seen r)) (run_ix r))),
                        rep_cancelled = run_cancelled r \<rparr>,
                     (delete_stale (stale_paths (files s) (run_seen r)) (run_ix r))
                       \<lparr>meta_last_indexed := Some (utcnow E),
                         meta_document_count :=
                           Some (count_files (delete_stale (stale_paths (files s) (run_seen r)) (run_ix r)))\<rparr>,
                     run_progress r)"
    using rebuild_index_unfold[OF assms(1), of cb] by blast
  let ?d = "delete_stale (stale_paths (files s) (run_seen r)) (run_ix r)"
  let ?s' = "?d\<lparr>meta_last_indexed := Some (utcnow E), meta_document_count := Some (count_files ?d)\<rparr>"
  have seen: "run_seen r = processed_prefix (loop_cancel E) 1 (candidates_of E s)"
    using rebuild_loop_seen[OF loop] by simp
  have canc: "run_cancelled r = (processed_prefix (loop_cancel E) 1 (candidates_of E s) \<noteq> candidates_of E s)"
    using rebuild_loop_cancel_flag[OF loop] by simp
  have stale: "p \<in> set (stale_paths (files s) (run_seen r))"
    using assms(2,3) seen by (simp add: stale_paths_def file_paths_def)
  have nf: "p \<notin> file_paths ?d"
    using stale by (simp add: file_paths_delete_stale)
  have nf': "p \<notin> file_paths ?s'" using nf by (simp add: file_paths_def)
  have nc: "p \<notin> content_paths ?s'"
  proof (cases "fts_available (run_ix r)")
    case True
    have "Some p \<notin> set (map c_path (file_content ?d))"
      using True stale by (rule no_content_after_delete_stale)
    then show ?thesis using True by (simp add: content_paths_def fts_delete_stale)
  next
    case False
    then have "\<not> fts_available ?s'" by (simp add: fts_delete_stale)
    then have "content_paths ?s' \<subseteq> file_paths ?s'" by (rule content_paths_subset_fallback)
    then show ?thesis using nf' by blast
  qed
  have nl: "linked_content ?s' p = []" using nf' by (rule linked_content_none)
  show ?thesis using res canc nf' nc nl by simp
qed






theorem cancelled_rebuild_deletes_unseen_witness:
  "path_exists loop_cancel_env (get_base_path loop_cancel_env two_files_fts) \<and>
   data_dir @ [''b.txt''] \<in> file_paths two_files_fts \<and>
   candidates_of loop_cancel_env two_files_fts = [data_dir @ [''a.txt''], data_dir @ [''b.txt'']] \<and>
   processed_prefix (loop_cancel loop_cancel_env) 1 (candidates_of loop_cancel_env two_files_fts) =
     [data_dir @ [''a.txt'']] \<and>
   stat loop_cancel_env (data_dir @ [''b.txt'']) = Inr \<lparr> st_mtime = 11, st_size = 7 \<rparr> \<and>
   (\<exists>rep s' prog. rebuild_index loop_cancel_env True two_files_fts = Some (rep, s', prog) \<and>
      rep_cancelled rep \<and> data_dir @ [''b.txt''] \<notin> file_paths s' \<and>
      data_dir @ [''b.txt''] \<notin> content_paths s' \<and> linked_content s' (data_dir @ [''b.txt'']) = []) \<and>
   candidates_of crawl_cancel_env two_files_plain = [] \<and>
   (\<exists>rep s' prog. rebuild_index crawl_cancel_env True two_files_plain = Some (rep, s', prog) \<and>
      data_dir @ [''a.txt''] \<notin> file_paths s' \<and> data_dir @ [''a.txt''] \<notin> content_paths s')"
proof -
  have h1: "path_exists loop_cancel_env (get_base_path loop_cancel_env two_files_fts)"
    by (simp add: loop_cancel_env_def two_files_env_def linux_env_def)
  have h2: "data_dir @ [''b.txt''] \<in> file_paths two_files_fts"
    by (simp add: file_paths_def two_files_fts_def)
  have c: "candidates_of loop_cancel_env two_files_fts = [data_dir @ [''a.txt''], data_dir @ [''b.txt'']]"
    by code_simp
  have pre: "processed_prefix (loop_cancel loop_cancel_env) 1 (candidates_of loop_cancel_env two_files_fts) =
     [data_dir @ [''a.txt'']]"
    unfolding c by (simp add: loop_cancel_env_def)
  have h3: "data_dir @ [''b.txt''] \<notin> set (processed_prefix (loop_cancel loop_cancel_env) 1 (candidates_of loop_cancel_env two_files_fts))"
    unfolding pre by simp
  have st: "stat loop_cancel_env (data_dir @ [''b.txt'']) = Inr \<lparr> st_mtime = 11, st_size = 7 \<rparr>"
    by (simp add: loop_cancel_env_def two_files_env_def)
  have ne: "processed_prefix (loop_cancel loop_cancel_env) 1 (candidates_of loop_cancel_env two_files_fts) \<noteq>
      candidates_of loop_cancel_env two_files_fts"
    unfolding pre unfolding c by simp
  have k1: "path_exists crawl_cancel_env (get_base_path crawl_cancel_env two_files_plain)"
    by (simp add: crawl_cancel_env_def two_files_env_def linux_env_def)
  have k2: "data_dir @ [''a.txt''] \<in> file_paths two_files_plain"
    by (simp add: file_paths_def two_files_plain_def two_files_fts_def)
  have kc: "candidates_of crawl_cancel_env two_files_plain = []"
    by code_simp
  have k3: "data_dir @ [''a.txt''] \<notin> set (processed_prefix (loop_cancel crawl_cancel_env) 1 (candidates_of crawl_cancel_env two_files_plain))"
    unfolding kc by simp
  show ?thesis
    using h1 h2 c pre st ne kc
      cancelled_rebuild_deletes_unseen [OF h1 h2 h3, of True]
      cancelled_rebuild_deletes_unseen [OF k1 k2 k3, of True]
    by auto
qed











text \<open>
  Claim C6 (no progress call for a candidate whose stat fails). With a callback, no
  cancellation and two candidates of which \<^verbatim>\<open>a.txt\<close> cannot be statted, the run scans 2,
  processes 2, records the stat error, and calls the callback once only, for \<^verbatim>\<open>b.txt\<close>:
  the \<^verbatim>\<open>continue\<close> of the error branch skips the call that the two other branches make.
  In general (\<open>rebuild_progress_count\<close>) the callback is called once per reached
  candidate whose stat succeeds.
\<close>

theorem progress_skipped_on_stat_failure:
  "candidates_of stat_fail_env fresh_indexer = [data_dir @ [''a.txt''], data_dir @ [''b.txt'']] \<and>
   stat stat_fail_env (data_dir @ [''a.txt'']) = Inl ''No such file or directory'' \<and>
   map_option (\<lambda>(rep, s', prog). (rep_total_scanned rep, rep_processed rep, rep_cancelled rep,
        last_errors s', prog))
     (rebuild_index stat_fail_env True fresh_indexer) =
     Some (2, Some 2, False,
           [(''/home/u/data/a.txt'', ''Stat failed: No such file or directory'')],
           [(2, 2, ''/home/u/data/b.txt'')])"
  by code_simp

lemma rebuild_progress_count:
  assumes "path_exists E (get_base_path E s)"
  shows "\<exists>rep s' prog. rebuild_index E True s = Some (rep, s', prog) \<and>
           length prog = length (filter (\<lambda>p. stat_values E p \<noteq> None)
                                  (processed_prefix (loop_cancel E) 1 (candidates_of E s)))"
proof -
  obtain r where loop: "rebuild_loop E True (length (candidates_of E s)) (snapshot (files s)) 1 (candidates_of E s)
              \<lparr> run_ix = crawled E s, run_updated = 0, run_processed = 0, run_seen = [],
                run_cancelled = False, run_progress = [] \<rparr> = Some r"
    and res: "\<exists>rep s'. rebuild_index E True s = Some (rep, s', run_progress r)"
    using rebuild_index_unfold[OF assms, of True] by blast
  show ?thesis using res rebuild_loop_progress[OF loop] by auto
qed

subsection \<open>Search\<close>





lemma dict_get_None: "k \<notin> set (map fst m) \<Longrightarrow> dict_get m k = None"
  by (induction m) auto
















lemma search_returns:
  assumes "list_all (\<lambda>row. fromtimestamp_ok E (f_mtime row)) (files s)"
    and "query_tokens (lower (strip query)) = [] \<or>
         (if fts_available s
          then \<exists>hits. fts5_match E (map (\<lambda>c. (c_rowid c, c_content c)) (file_content s))
                  (join_with '' OR '' (map (\<lambda>tok. tok @ ''*'') (query_tokens (lower (strip query)))))
                  (2 * nat (max 1 limit)) = Inr hits
          else \<not> like_query_raises E (''%'' @ lower (strip query) @ ''%'') (2 * nat (max 1 limit)))"
  shows "\<exists>res. search E s query limit = Some res"
  using assms
  by (auto simp add: search_def Let_def content_scores_def initial_entries_def split: if_splits)




subsection \<open>The query \<^verbatim>\<open>revenue\<close>\<close>











end
